theory Spec2Isabelle
  imports Main "HOL-Library.AList"
begin

section \<open>The message-broker client of src/messaging/connection.ts\<close>

text \<open>
  The module wraps the amqplib client. amqplib, the broker behind it and the JavaScript
  built-ins \<open>JSON.stringify\<close> and \<open>JSON.parse\<close> are not part of the repository: their
  answers are taken as parameters (the record \<open>env\<close>), and every call the module makes to
  a channel or a connection is appended to a log, so that what the module hands to the
  broker can be observed. Each \<open>async\<close> method is modelled as one atomic state
  transformer; a rejected promise or a thrown exception is the \<open>Inl\<close> branch of a sum,
  and a promise that never settles is \<open>None\<close>. Only for the round trip of an envelope
  through JSON are the two built-ins modelled, from their documentation.
\<close>

subsection \<open>Values, errors and the wire message\<close>

text \<open>
  JavaScript values as far as the module inspects or builds them. An object is an
  association list in property order; a \<open>number\<close> is an integer or \<open>NaN\<close>.
\<close>

datatype jsval =
    JUndefined
  | JNull
  | JBool bool
  | JNum int
  | JNaN
  | JStr string
  | JArr "jsval list"
  | JObj "(string \<times> jsval) list"

type_synonym jsobject = "(string \<times> jsval) list"

text \<open>
  The errors the module raises itself are \<open>new Error('RabbitMQ not connected')\<close> and
  \<open>new Error('RPC timeout')\<close>; \<open>TypeError\<close> is the runtime's error for a property read
  on \<open>null\<close>; \<open>Thrown\<close> is any error coming from amqplib, JSON or a caller's callback.
\<close>

datatype error =
    NotConnected
  | RPCTimeout
  | TypeError
  | Thrown string

record Metadata =
  correlationId :: "string option"
  replyTo :: "string option"
  priority :: "int option"
  ttl :: "int option"

record QueueMessage =
  id :: string
  type :: string
  timestamp :: int
  data :: jsval
  metadata :: "Metadata option"

type_synonym Connection = nat
type_synonym Channel = nat

text \<open>A delivery as amqplib hands it to a consumer callback (\<open>msg\<close>).\<close>

record Delivery =
  content :: string
  properties_correlationId :: "string option"

subsection \<open>The calls made to amqplib\<close>

datatype call =
    CreateChannel Connection
  | Prefetch Channel nat
  | AssertExchange Channel string string jsobject
  | AssertQueue Channel string jsobject
  | BindQueue Channel string string string
  | ChanPublish Channel string string string jsobject
  | ChanSendToQueue Channel string string jsobject
  | ChanConsume Channel string "jsobject option"
  | Ack Channel Delivery
  | Nack Channel Delivery bool bool

text \<open>
  What the world outside the module answers. \<open>chan_publish\<close> and \<open>chan_sendToQueue\<close>
  return amqplib's boolean (false: the write buffer is full) or throw; \<open>assertQueue\<close>
  answers with the queue's name; \<open>chan_ack\<close> and \<open>chan_nack\<close> return nothing or throw
  (amqplib throws on a channel that has been closed).
\<close>

record env =
  amqplib_connect :: "error + Connection"
  createChannel :: "Connection \<Rightarrow> error + Channel"
  prefetch :: "Channel \<Rightarrow> nat \<Rightarrow> error + unit"
  assertExchange :: "Channel \<Rightarrow> string \<Rightarrow> string \<Rightarrow> jsobject \<Rightarrow> error + unit"
  assertQueue :: "Channel \<Rightarrow> string \<Rightarrow> jsobject \<Rightarrow> error + string"
  bindQueue :: "Channel \<Rightarrow> string \<Rightarrow> string \<Rightarrow> string \<Rightarrow> error + unit"
  chan_publish :: "Channel \<Rightarrow> string \<Rightarrow> string \<Rightarrow> string \<Rightarrow> jsobject \<Rightarrow> error + bool"
  chan_sendToQueue :: "Channel \<Rightarrow> string \<Rightarrow> string \<Rightarrow> jsobject \<Rightarrow> error + bool"
  chan_consume :: "Channel \<Rightarrow> string \<Rightarrow> jsobject option \<Rightarrow> error + unit"
  chan_ack :: "Channel \<Rightarrow> Delivery \<Rightarrow> error + unit"
  chan_nack :: "Channel \<Rightarrow> Delivery \<Rightarrow> bool \<Rightarrow> bool \<Rightarrow> error + unit"
  JSON_stringify :: "QueueMessage \<Rightarrow> error + string"
  JSON_parse :: "string \<Rightarrow> error + jsval"

subsection \<open>class RabbitMQConnection: state and channel pool\<close>

text \<open>
  The three private fields of the class, and \<open>calls\<close>, the log of amqplib calls made so
  far (not a field of the class).
\<close>

record RabbitMQConnection =
  connection :: "Connection option"
  channels :: "string \<rightharpoonup> Channel"
  connected :: bool
  calls :: "call list"

definition log :: "call \<Rightarrow> RabbitMQConnection \<Rightarrow> RabbitMQConnection" where
  "log c st = st\<lparr>calls := calls st @ [c]\<rparr>"

text \<open>The two listeners \<open>connect\<close> installs on the connection.\<close>

definition on_error :: "RabbitMQConnection \<Rightarrow> RabbitMQConnection" where
  "on_error st = st\<lparr>connected := False\<rparr>"

definition on_close :: "RabbitMQConnection \<Rightarrow> RabbitMQConnection" where
  "on_close st = st\<lparr>connected := False\<rparr>"

definition getChannel ::
  "env \<Rightarrow> string \<Rightarrow> RabbitMQConnection \<Rightarrow> (error + Channel) \<times> RabbitMQConnection" where
  "getChannel E name st =
     (case channels st name of
        Some ch \<Rightarrow> (Inr ch, st)
      | None \<Rightarrow>
          (case connection st of
             None \<Rightarrow> (Inl NotConnected, st)
           | Some conn \<Rightarrow>
               (let st1 = log (CreateChannel conn) st in
                case createChannel E conn of
                  Inl e \<Rightarrow> (Inl e, st1)
                | Inr channel \<Rightarrow>
                    (let st2 = log (Prefetch channel 10) st1 in
                     case prefetch E channel 10 of
                       Inl e \<Rightarrow> (Inl e, st2)
                     | Inr _ \<Rightarrow> (Inr channel, st2\<lparr>channels := (channels st2)(name \<mapsto> channel)\<rparr>)))))"

subsection \<open>Topology: initializeExchanges, initializeQueues, connect\<close>

definition EXCHANGES :: "(string \<times> string) list" where
  "EXCHANGES =
     [(''PAYMENT_EVENTS'', ''payment.events''),
      (''LOYALTY_EVENTS'', ''loyalty.events''),
      (''TIP_EVENTS'', ''tip.events''),
      (''SYSTEM_EVENTS'', ''system.events''),
      (''COMPLIANCE_EVENTS'', ''compliance.events'')]"

definition QUEUES :: "(string \<times> string) list" where
  "QUEUES =
     [(''PAYMENT_PROCESSING'', ''payment.processing''),
      (''PAYMENT_CONFIRMED'', ''payment.confirmed''),
      (''PAYMENT_FAILED'', ''payment.failed''),
      (''LOYALTY_POINTS_EARNED'', ''loyalty.points.earned''),
      (''LOYALTY_POINTS_REDEEMED'', ''loyalty.points.redeemed''),
      (''TIP_PROCESSING'', ''tip.processing''),
      (''TIP_SETTLED'', ''tip.settled''),
      (''WEBHOOK_NOTIFICATION'', ''webhook.notification''),
      (''COMPLIANCE_CHECK'', ''compliance.check''),
      (''ANALYTICS_EVENT'', ''analytics.event''),
      (''NOTIFICATION_EMAIL'', ''notification.email''),
      (''NOTIFICATION_SMS'', ''notification.sms'')]"

text \<open>
  The local array \<open>exchanges\<close> of initializeExchanges: the five names of
  \<open>EXCHANGES\<close>, each with its type.
\<close>

definition exchanges :: "(string \<times> string) list" where
  "exchanges = zip (map snd EXCHANGES) [''topic'', ''topic'', ''topic'', ''fanout'', ''direct'']"

definition exchange_options :: jsobject where
  "exchange_options =
     [(''durable'', JBool True),
      (''arguments'', JObj [(''x-message-ttl'', JNum 86400000)])]"

text \<open>The local array \<open>queues\<close> of initializeQueues.\<close>

definition queues :: "string list" where
  "queues = map snd QUEUES"

definition queue_options :: jsobject where
  "queue_options =
     [(''durable'', JBool True),
      (''arguments'', JObj [(''x-dead-letter-exchange'', JStr ''dead-letter''),
                            (''x-message-ttl'', JNum 86400000),
                            (''x-max-priority'', JNum 10)])]"

text \<open>The two \<open>for ... of\<close> loops; an exception of amqplib leaves the loop.\<close>

fun assertExchanges ::
  "env \<Rightarrow> Channel \<Rightarrow> (string \<times> string) list \<Rightarrow> RabbitMQConnection
     \<Rightarrow> (error + unit) \<times> RabbitMQConnection" where
  "assertExchanges E channel [] st = (Inr (), st)"
| "assertExchanges E channel ((name, kind) # rest) st =
     (let st1 = log (AssertExchange channel name kind exchange_options) st in
      case assertExchange E channel name kind exchange_options of
        Inl e \<Rightarrow> (Inl e, st1)
      | Inr _ \<Rightarrow> assertExchanges E channel rest st1)"

fun assertQueues ::
  "env \<Rightarrow> Channel \<Rightarrow> string list \<Rightarrow> RabbitMQConnection
     \<Rightarrow> (error + unit) \<times> RabbitMQConnection" where
  "assertQueues E channel [] st = (Inr (), st)"
| "assertQueues E channel (queueName # rest) st =
     (let st1 = log (AssertQueue channel queueName queue_options) st in
      case assertQueue E channel queueName queue_options of
        Inl e \<Rightarrow> (Inl e, st1)
      | Inr _ \<Rightarrow> assertQueues E channel rest st1)"

definition initializeExchanges ::
  "env \<Rightarrow> RabbitMQConnection \<Rightarrow> (error + unit) \<times> RabbitMQConnection" where
  "initializeExchanges E st =
     (case getChannel E ''init'' st of
        (Inl e, st1) \<Rightarrow> (Inl e, st1)
      | (Inr channel, st1) \<Rightarrow> assertExchanges E channel exchanges st1)"

text \<open>The three declarations after the loop of initializeQueues.\<close>

definition deadLetterPath ::
  "env \<Rightarrow> Channel \<Rightarrow> RabbitMQConnection \<Rightarrow> (error + unit) \<times> RabbitMQConnection" where
  "deadLetterPath E channel st =
     (let st1 = log (AssertExchange channel ''dead-letter'' ''fanout'' [(''durable'', JBool True)]) st in
      case assertExchange E channel ''dead-letter'' ''fanout'' [(''durable'', JBool True)] of
        Inl e \<Rightarrow> (Inl e, st1)
      | Inr _ \<Rightarrow>
          (let st2 = log (AssertQueue channel ''dead-letter-queue'' [(''durable'', JBool True)]) st1 in
           case assertQueue E channel ''dead-letter-queue'' [(''durable'', JBool True)] of
             Inl e \<Rightarrow> (Inl e, st2)
           | Inr _ \<Rightarrow>
               (let st3 = log (BindQueue channel ''dead-letter-queue'' ''dead-letter'' []) st2 in
                case bindQueue E channel ''dead-letter-queue'' ''dead-letter'' [] of
                  Inl e \<Rightarrow> (Inl e, st3)
                | Inr _ \<Rightarrow> (Inr (), st3))))"

definition initializeQueues ::
  "env \<Rightarrow> RabbitMQConnection \<Rightarrow> (error + unit) \<times> RabbitMQConnection" where
  "initializeQueues E st =
     (case getChannel E ''init'' st of
        (Inl e, st1) \<Rightarrow> (Inl e, st1)
      | (Inr channel, st1) \<Rightarrow>
          (case assertQueues E channel queues st1 of
             (Inl e, st2) \<Rightarrow> (Inl e, st2)
           | (Inr _, st2) \<Rightarrow> deadLetterPath E channel st2))"

definition connect ::
  "env \<Rightarrow> RabbitMQConnection \<Rightarrow> (error + unit) \<times> RabbitMQConnection" where
  "connect E st =
     (case amqplib_connect E of
        Inl e \<Rightarrow> (Inl e, st)
      | Inr conn \<Rightarrow>
          (let st1 = st\<lparr>connection := Some conn, connected := True\<rparr> in
           case initializeExchanges E st1 of
             (Inl e, st2) \<Rightarrow> (Inl e, st2)
           | (Inr _, st2) \<Rightarrow> initializeQueues E st2))"

text \<open>The instance as \<open>new RabbitMQConnection()\<close> leaves it.\<close>

definition new_RabbitMQConnection :: RabbitMQConnection where
  "new_RabbitMQConnection =
     \<lparr>connection = None, channels = Map.empty, connected = False, calls = []\<rparr>"

subsection \<open>Publisher: publish and sendToQueue\<close>

text \<open>
  \<open>{...obj, ...options}\<close>: the properties of \<open>options\<close> are written over \<open>obj\<close> in
  order; an existing key keeps its place and takes the new value, a new key is appended.
  Spreading \<open>undefined\<close> (no options given) adds nothing.
\<close>

definition spread :: "jsobject \<Rightarrow> jsobject option \<Rightarrow> jsobject" where
  "spread obj options =
     (case options of
        None \<Rightarrow> obj
      | Some props \<Rightarrow> fold (\<lambda>kv. AList.update (fst kv) (snd kv)) props obj)"

definition messageOptions :: "QueueMessage \<Rightarrow> jsobject option \<Rightarrow> jsobject" where
  "messageOptions message options =
     spread [(''persistent'', JBool True),
             (''messageId'', JStr (id message)),
             (''timestamp'', JNum (timestamp message)),
             (''type'', JStr (type message))] options"

definition publish ::
  "env \<Rightarrow> string \<Rightarrow> string \<Rightarrow> QueueMessage \<Rightarrow> jsobject option \<Rightarrow> RabbitMQConnection
     \<Rightarrow> (error + bool) \<times> RabbitMQConnection" where
  "publish E exchange routingKey message options st =
     (case getChannel E ''publisher'' st of
        (Inl e, st1) \<Rightarrow> (Inr False, st1)
      | (Inr channel, st1) \<Rightarrow>
          (case JSON_stringify E message of
             Inl e \<Rightarrow> (Inr False, st1)
           | Inr buffer \<Rightarrow>
               (let st2 = log (ChanPublish channel exchange routingKey buffer
                                 (messageOptions message options)) st1 in
                case chan_publish E channel exchange routingKey buffer
                       (messageOptions message options) of
                  Inl e \<Rightarrow> (Inr False, st2)
                | Inr result \<Rightarrow> (Inr result, st2))))"

definition sendToQueue ::
  "env \<Rightarrow> string \<Rightarrow> QueueMessage \<Rightarrow> jsobject option \<Rightarrow> RabbitMQConnection
     \<Rightarrow> (error + bool) \<times> RabbitMQConnection" where
  "sendToQueue E queue message options st =
     (case getChannel E ''publisher'' st of
        (Inl e, st1) \<Rightarrow> (Inr False, st1)
      | (Inr channel, st1) \<Rightarrow>
          (case JSON_stringify E message of
             Inl e \<Rightarrow> (Inr False, st1)
           | Inr buffer \<Rightarrow>
               (let st2 = log (ChanSendToQueue channel queue buffer
                                 (messageOptions message options)) st1 in
                case chan_sendToQueue E channel queue buffer
                       (messageOptions message options) of
                  Inl e \<Rightarrow> (Inr False, st2)
                | Inr result \<Rightarrow> (Inr result, st2))))"

subsection \<open>Consumer: consume and its per-message callback\<close>

text \<open>
  Reading a property of a parsed value, as \<open>message.id\<close> does in the debug log line:
  on \<open>null\<close> or \<open>undefined\<close> the runtime throws a TypeError, on any other value the
  read succeeds (with \<open>undefined\<close> when the property is absent).
\<close>

definition get_property :: "jsval \<Rightarrow> string \<Rightarrow> error + jsval" where
  "get_property v k =
     (case v of
        JUndefined \<Rightarrow> Inl TypeError
      | JNull \<Rightarrow> Inl TypeError
      | JObj props \<Rightarrow> Inr (case map_of props k of None \<Rightarrow> JUndefined | Some x \<Rightarrow> x)
      | _ \<Rightarrow> Inr JUndefined)"

text \<open>
  The \<open>try\<close> block of the callback: parse, read \<open>message.id\<close> for the log line, await
  the handler, acknowledge. The parsed value is passed to the handler as it is (the cast
  to QueueMessage checks nothing at run time). The handler answers \<open>Some (Inr ())\<close> when
  its promise resolves, \<open>Some (Inl e)\<close> when it throws or rejects, and \<open>None\<close> when its
  promise never settles: then the \<open>await\<close> never returns and neither does the block.
  \<open>channel.ack(msg)\<close> is the last statement inside the \<open>try\<close>: when it throws, the
  block ends with that error.
\<close>

definition consume_try ::
  "env \<Rightarrow> Channel \<Rightarrow> (jsval \<Rightarrow> (error + unit) option) \<Rightarrow> Delivery \<Rightarrow> RabbitMQConnection
     \<Rightarrow> (error + unit) option \<times> RabbitMQConnection" where
  "consume_try E channel handler msg st =
     (case JSON_parse E (content msg) of
        Inl e \<Rightarrow> (Some (Inl e), st)
      | Inr message \<Rightarrow>
          (case get_property message ''id'' of
             Inl e \<Rightarrow> (Some (Inl e), st)
           | Inr _ \<Rightarrow>
               (case handler message of
                  None \<Rightarrow> (None, st)
                | Some (Inl e) \<Rightarrow> (Some (Inl e), st)
                | Some (Inr _) \<Rightarrow>
                    (let st1 = log (Ack channel msg) st in
                     case chan_ack E channel msg of
                       Inl e \<Rightarrow> (Some (Inl e), st1)
                     | Inr _ \<Rightarrow> (Some (Inr ()), st1)))))"

text \<open>
  The callback handed to \<open>channel.consume\<close>: \<open>None\<close> as delivery is a null delivery.
  The \<open>catch\<close> block runs on every error of the \<open>try\<close> block and calls
  \<open>channel.nack(msg, false, true)\<close>; an error of that call leaves the callback. The
  result is \<open>None\<close> when the callback never completes, \<open>Some (Inl e)\<close> when its promise
  rejects and \<open>Some (Inr ())\<close> when it resolves.
\<close>

definition consume_callback ::
  "env \<Rightarrow> Channel \<Rightarrow> (jsval \<Rightarrow> (error + unit) option) \<Rightarrow> Delivery option
     \<Rightarrow> RabbitMQConnection \<Rightarrow> (error + unit) option \<times> RabbitMQConnection" where
  "consume_callback E channel handler msg st =
     (case msg of
        None \<Rightarrow> (Some (Inr ()), st)
      | Some m \<Rightarrow>
          (case consume_try E channel handler m st of
             (None, st1) \<Rightarrow> (None, st1)
           | (Some (Inl e), st1) \<Rightarrow>
               (let st2 = log (Nack channel m False True) st1 in
                case chan_nack E channel m False True of
                  Inl e2 \<Rightarrow> (Some (Inl e2), st2)
                | Inr _ \<Rightarrow> (Some (Inr ()), st2))
           | (Some (Inr _), st1) \<Rightarrow> (Some (Inr ()), st1)))"

text \<open>
  consume itself: on success the result is the channel on which \<open>consume_callback\<close> is
  installed (the source returns nothing; the channel is what the callback closes over).
\<close>

definition consume ::
  "env \<Rightarrow> string \<Rightarrow> jsobject option \<Rightarrow> RabbitMQConnection
     \<Rightarrow> (error + Channel) \<times> RabbitMQConnection" where
  "consume E queue options st =
     (case getChannel E (''consumer:'' @ queue) st of
        (Inl e, st1) \<Rightarrow> (Inl e, st1)
      | (Inr channel, st1) \<Rightarrow>
          (let st2 = log (ChanConsume channel queue options) st1 in
           case chan_consume E channel queue options of
             Inl e \<Rightarrow> (Inl e, st2)
           | Inr _ \<Rightarrow> (Inr channel, st2)))"

text \<open>The settlement calls (ack, nack) in a log.\<close>

fun is_settlement :: "call \<Rightarrow> bool" where
  "is_settlement (Ack _ _) = True"
| "is_settlement (Nack _ _ _ _) = True"
| "is_settlement _ = False"

subsection \<open>RPC\<close>

text \<open>
  A promise is settled once: \<open>resolve\<close> and \<open>reject\<close> on a settled promise do nothing.
\<close>

datatype 'a promise = Pending | Resolved 'a | Rejected error

definition resolve :: "'a \<Rightarrow> 'a promise \<Rightarrow> 'a promise" where
  "resolve v p = (case p of Pending \<Rightarrow> Resolved v | _ \<Rightarrow> p)"

definition reject :: "error \<Rightarrow> 'a promise \<Rightarrow> 'a promise" where
  "reject e p = (case p of Pending \<Rightarrow> Rejected e | _ \<Rightarrow> p)"

text \<open>
  One call of rpc: the promise it returned, the timer started by \<open>setTimeout\<close> (its
  delay while it has not fired; the source never calls \<open>clearTimeout\<close>) and the consumer
  registered on the reply queue (its channel and correlation id; the source never
  cancels it).
\<close>

record rpc_call =
  pool :: RabbitMQConnection
  promise :: "jsval promise"
  timer :: "int option"
  consumer :: "(Channel \<times> string) option"

text \<open>
  The callback on the reply queue. It is synchronous: parse, ack and resolve run within
  the delivery itself, on the channel that has just delivered, and the ack is logged as a
  call that returns.
\<close>

definition rpc_callback ::
  "env \<Rightarrow> Channel \<Rightarrow> string \<Rightarrow> Delivery option \<Rightarrow> rpc_call \<Rightarrow> rpc_call" where
  "rpc_callback E channel corrId msg rc =
     (case msg of
        None \<Rightarrow> rc
      | Some m \<Rightarrow>
          (if properties_correlationId m \<noteq> Some corrId then rc
           else
             (case JSON_parse E (content m) of
                Inl e \<Rightarrow> rc\<lparr>promise := reject e (promise rc)\<rparr>
              | Inr response \<Rightarrow>
                  rc\<lparr>pool := log (Ack channel m) (pool rc),
                     promise := resolve response (promise rc)\<rparr>)))"

text \<open>The callback of the timer.\<close>

definition rpc_timeout :: "rpc_call \<Rightarrow> rpc_call" where
  "rpc_timeout rc = rc\<lparr>promise := reject RPCTimeout (promise rc), timer := None\<rparr>"

definition rpc_failed :: "error \<Rightarrow> RabbitMQConnection \<Rightarrow> rpc_call" where
  "rpc_failed e st = \<lparr>pool = st, promise = Rejected e, timer = None, consumer = None\<rparr>"

definition rpc ::
  "env \<Rightarrow> string \<Rightarrow> QueueMessage \<Rightarrow> int \<Rightarrow> RabbitMQConnection \<Rightarrow> rpc_call" where
  "rpc E queue request timeoutMs st =
     (case getChannel E ''rpc'' st of
        (Inl e, st1) \<Rightarrow> rpc_failed e st1
      | (Inr channel, st1) \<Rightarrow>
          (let corrId = id request;
               st2 = log (AssertQueue channel []
                            [(''exclusive'', JBool True), (''autoDelete'', JBool True)]) st1 in
           case assertQueue E channel []
                  [(''exclusive'', JBool True), (''autoDelete'', JBool True)] of
             Inl e \<Rightarrow> rpc_failed e st2
           | Inr tempQueue \<Rightarrow>
               (let st3 = log (ChanConsume channel tempQueue
                                 (Some [(''noAck'', JBool False)])) st2 in
                case chan_consume E channel tempQueue (Some [(''noAck'', JBool False)]) of
                  Inl e \<Rightarrow> rpc_failed e st3
                | Inr _ \<Rightarrow>
                    (let st4 = snd (sendToQueue E queue request
                                      (Some [(''correlationId'', JStr corrId),
                                             (''replyTo'', JStr tempQueue)]) st3) in
                     \<lparr>pool = st4, promise = Pending, timer = Some timeoutMs,
                      consumer = Some (channel, corrId)\<rparr>))))"

text \<open>
  What can happen to a call afterwards: a delivery on the reply queue (to the registered
  consumer) or the timer firing (if it is still pending).
\<close>

datatype event = Deliver "Delivery option" | TimerFires

definition rpc_step :: "env \<Rightarrow> event \<Rightarrow> rpc_call \<Rightarrow> rpc_call" where
  "rpc_step E ev rc =
     (case ev of
        Deliver msg \<Rightarrow>
          (case consumer rc of
             None \<Rightarrow> rc
           | Some (channel, corrId) \<Rightarrow> rpc_callback E channel corrId msg rc)
      | TimerFires \<Rightarrow>
          (case timer rc of
             None \<Rightarrow> rc
           | Some _ \<Rightarrow> rpc_timeout rc))"

definition rpc_run :: "env \<Rightarrow> event list \<Rightarrow> rpc_call \<Rightarrow> rpc_call" where
  "rpc_run E evs rc = fold (rpc_step E) evs rc"

text \<open>An event that is not a reply to the call with correlation id \<open>corrId\<close>.\<close>

definition no_reply_for :: "string \<Rightarrow> event \<Rightarrow> bool" where
  "no_reply_for corrId ev =
     (case ev of
        Deliver None \<Rightarrow> True
      | Deliver (Some m) \<Rightarrow> properties_correlationId m \<noteq> Some corrId
      | TimerFires \<Rightarrow> False)"

text \<open>
  The call in time. Time is counted in milliseconds from the moment \<open>setTimeout\<close> is
  called, at the end of the set-up; the timer's callback runs when that time reaches the
  timer's delay, and before a delivery that arrives at the same instant. An arrival is a
  delivery on the reply queue with the time at which it arrives.
\<close>

type_synonym arrival = "int \<times> Delivery option"

definition rpc_clock :: "env \<Rightarrow> int \<Rightarrow> rpc_call \<Rightarrow> rpc_call" where
  "rpc_clock E t rc =
     (case timer rc of
        None \<Rightarrow> rc
      | Some delay \<Rightarrow> (if delay \<le> t then rpc_step E TimerFires rc else rc))"

text \<open>
  The state of the call at time \<open>now\<close>, the arrivals being given in the order in which
  they arrive: those that have arrived by then are handed to the callback in turn, the
  timer firing in between when it is due.
\<close>

fun rpc_until :: "env \<Rightarrow> arrival list \<Rightarrow> int \<Rightarrow> rpc_call \<Rightarrow> rpc_call" where
  "rpc_until E [] now rc = rpc_clock E now rc"
| "rpc_until E ((t, msg) # rest) now rc =
     (if now < t then rpc_clock E now rc
      else rpc_until E rest now (rpc_step E (Deliver msg) (rpc_clock E t rc)))"

text \<open>An arrival that is not a reply to the call \<open>corrId\<close>.\<close>

definition unrelated :: "string \<Rightarrow> arrival \<Rightarrow> bool" where
  "unrelated corrId a = no_reply_for corrId (Deliver (snd a))"

text \<open>An arrival that, if it comes before the time \<open>deadline\<close>, is not a reply to the call.\<close>

definition no_reply_before :: "string \<Rightarrow> int \<Rightarrow> arrival \<Rightarrow> bool" where
  "no_reply_before corrId deadline a = (if fst a < deadline then unrelated corrId a else True)"

text \<open>An arrival no later than the time \<open>t\<close> that is not a reply to the call.\<close>

definition unrelated_by :: "string \<Rightarrow> int \<Rightarrow> arrival \<Rightarrow> bool" where
  "unrelated_by corrId t a = (fst a \<le> t \<and> unrelated corrId a)"

subsection \<open>messageHelpers.publishWithRetry\<close>

text \<open>
  \<open>publishFunction\<close> is a stateful operation: from its state it answers true, false or
  throws, and moves to a next state. The run records how often it was invoked and the
  delays slept, in order.
\<close>

record 's retry_run =
  op_state :: 's
  invocations :: nat
  waits :: "int list"

function publishWithRetry_loop ::
  "('s \<Rightarrow> (error + bool) \<times> 's) \<Rightarrow> int \<Rightarrow> int \<Rightarrow> nat \<Rightarrow> 's retry_run
     \<Rightarrow> (error + bool) \<times> 's retry_run" where
  "publishWithRetry_loop publishFunction maxRetries delayMs i r =
     (if int i < maxRetries then
        (case publishFunction (op_state r) of
           (Inr result, s) \<Rightarrow>
             (let r1 = r\<lparr>op_state := s, invocations := Suc (invocations r)\<rparr> in
              if result then (Inr True, r1)
              else if int i < maxRetries - 1
                then publishWithRetry_loop publishFunction maxRetries delayMs (Suc i)
                       (r1\<lparr>waits := waits r1 @ [delayMs * 2 ^ i]\<rparr>)
                else publishWithRetry_loop publishFunction maxRetries delayMs (Suc i) r1)
         | (Inl err, s) \<Rightarrow>
             (let r1 = r\<lparr>op_state := s, invocations := Suc (invocations r)\<rparr> in
              if int i = maxRetries - 1 then (Inl err, r1)
              else publishWithRetry_loop publishFunction maxRetries delayMs (Suc i) r1))
      else (Inr False, r))"
  by pat_completeness auto
termination
  by (relation "measure (\<lambda>(f, maxRetries, delayMs, i, r). nat (maxRetries - int i))") auto

definition publishWithRetry ::
  "('s \<Rightarrow> (error + bool) \<times> 's) \<Rightarrow> int \<Rightarrow> int \<Rightarrow> 's \<Rightarrow> (error + bool) \<times> 's retry_run" where
  "publishWithRetry publishFunction maxRetries delayMs s =
     publishWithRetry_loop publishFunction maxRetries delayMs 0
       \<lparr>op_state = s, invocations = 0, waits = []\<rparr>"

text \<open>
  What the \<open>k\<close>-th invocation of \<open>publishFunction\<close> (counted from 0) answers when the
  invocations start in state \<open>s\<close>.
\<close>

fun outcome :: "('s \<Rightarrow> (error + bool) \<times> 's) \<Rightarrow> 's \<Rightarrow> nat \<Rightarrow> error + bool" where
  "outcome f s 0 = fst (f s)"
| "outcome f s (Suc k) = outcome f (snd (f s)) k"

subsection \<open>The JSON round trip of an envelope\<close>










subsection \<open>Concrete inputs\<close>

text \<open>An operation that answers from a script, one entry per invocation.\<close>

fun scripted :: "(error + bool) list \<Rightarrow> (error + bool) \<times> (error + bool) list" where
  "scripted [] = (Inl (Thrown ''script exhausted''), [])"
| "scripted (x # xs) = (x, xs)"

text \<open>
  A world in which every amqplib call succeeds: one connection (0), one channel (1), a
  broker that names the anonymous queue \<open>amq.gen-1\<close> and accepts every write. Its JSON
  codec is a stand-in: it reads the texts \<open>{}\<close> and \<open>null\<close>, rejects every other
  text, and writes a message as its id.
\<close>

definition demo_env :: env where
  "demo_env =
     \<lparr>amqplib_connect = Inr 0,
      createChannel = (\<lambda>conn. Inr 1),
      prefetch = (\<lambda>channel n. Inr ()),
      assertExchange = (\<lambda>channel name kind opts. Inr ()),
      assertQueue = (\<lambda>channel name opts. Inr (if name = [] then ''amq.gen-1'' else name)),
      bindQueue = (\<lambda>channel queue exchange key. Inr ()),
      chan_publish = (\<lambda>channel exchange key buffer opts. Inr True),
      chan_sendToQueue = (\<lambda>channel queue buffer opts. Inr True),
      chan_consume = (\<lambda>channel queue opts. Inr ()),
      chan_ack = (\<lambda>channel msg. Inr ()),
      chan_nack = (\<lambda>channel msg allUpTo requeue. Inr ()),
      JSON_stringify = (\<lambda>message. Inr (id message)),
      JSON_parse = (\<lambda>s. if s = ''{}'' then Inr (JObj [])
                         else if s = ''null'' then Inr JNull
                         else Inl (Thrown ''SyntaxError''))\<rparr>"

text \<open>The same world with a channel that has been closed: every call on it throws.\<close>

definition closed_channel_env :: env where
  "closed_channel_env =
     demo_env\<lparr>chan_publish := (\<lambda>channel exchange key buffer opts. Inl (Thrown ''Channel closed'')),
              chan_sendToQueue := (\<lambda>channel queue buffer opts. Inl (Thrown ''Channel closed'')),
              chan_ack := (\<lambda>channel msg. Inl (Thrown ''Channel closed'')),
              chan_nack := (\<lambda>channel msg allUpTo requeue. Inl (Thrown ''Channel closed''))\<rparr>"

text \<open>The message of the specification's concrete scenario.\<close>

definition p1 :: QueueMessage where
  "p1 = \<lparr>id = ''p1'', type = ''payment.confirmed'', timestamp = 1700000000000,
         data = JObj [(''amount'', JNum 10)], metadata = None\<rparr>"



text \<open>The pool after a successful \<open>connect\<close> in the demo world.\<close>

definition connected_pool :: RabbitMQConnection where
  "connected_pool = snd (connect demo_env new_RabbitMQConnection)"

text \<open>A pool whose rpc and publisher channels are open, and an rpc call for \<open>p1\<close> with a
  50 ms timeout on it.\<close>

definition open_pool :: RabbitMQConnection where
  "open_pool = \<lparr>connection = Some 0, channels = [''rpc'' \<mapsto> 1, ''publisher'' \<mapsto> 1],
               connected = True, calls = []\<rparr>"

definition rpc0 :: rpc_call where
  "rpc0 = rpc demo_env ''compliance.check'' p1 50 open_pool"

text \<open>Deliveries: the body \<open>{}\<close> is the empty JSON object.\<close>

definition reply_p1 :: Delivery where
  "reply_p1 = \<lparr>content = ''{}'', properties_correlationId = Some ''p1''\<rparr>"

definition stale_reply :: Delivery where
  "stale_reply = \<lparr>content = ''{}'', properties_correlationId = Some ''p0''\<rparr>"

definition garbled :: Delivery where
  "garbled = \<lparr>content = ''<html>'', properties_correlationId = None\<rparr>"

definition null_body :: Delivery where
  "null_body = \<lparr>content = ''null'', properties_correlationId = None\<rparr>"

definition ok_handler :: "jsval \<Rightarrow> (error + unit) option" where
  "ok_handler message = Some (Inr ())"

definition failing_handler :: "jsval \<Rightarrow> (error + unit) option" where
  "failing_handler message = Some (Inl (Thrown ''handler failed''))"

definition hung_handler :: "jsval \<Rightarrow> (error + unit) option" where
  "hung_handler message = None"



text \<open>The four properties publish and sendToQueue put first into the message options.\<close>

definition stamped :: "QueueMessage \<Rightarrow> jsobject" where
  "stamped message =
     [(''persistent'', JBool True),
      (''messageId'', JStr (id message)),
      (''timestamp'', JNum (timestamp message)),
      (''type'', JStr (type message))]"

section \<open>Properties\<close>

subsection \<open>The retry helper\<close>

declare publishWithRetry_loop.simps [simp del]

lemmas loop_unfold = publishWithRetry_loop.simps

text \<open>
  If the first answer true comes at invocation \<open>k\<close> from the current state and attempt
  \<open>i + k\<close> is within the budget, the loop returns true right after it; a wait was slept
  after each invocation before it that answered false.
\<close>

lemma retry_success:
  assumes "int (i + k) < maxRetries"
    and "outcome f (op_state r) k = Inr True"
    and "\<And>j. j < k \<Longrightarrow> outcome f (op_state r) j \<noteq> Inr True"
  shows "fst (publishWithRetry_loop f maxRetries delayMs i r) = Inr True
       \<and> invocations (snd (publishWithRetry_loop f maxRetries delayMs i r)) = invocations r + Suc k
       \<and> waits (snd (publishWithRetry_loop f maxRetries delayMs i r))
           = waits r @ map (\<lambda>j. delayMs * 2 ^ (i + j))
                         (filter (\<lambda>j. outcome f (op_state r) j = Inr False) [0..<k])"
  using assms
proof (induction k arbitrary: i r)
  case 0
  then show ?case
    by (subst (1 2 3) loop_unfold) (auto split: prod.splits sum.splits)
next
  case (Suc k)
  obtain x s where fx: "f (op_state r) = (x, s)" by (cases "f (op_state r)")
  from Suc.prems(3)[of 0] fx have x: "x \<noteq> Inr True" by simp
  have lt: "int i < maxRetries - 1" using Suc.prems(1) by simp
  let ?r1 = "r\<lparr>op_state := s, invocations := Suc (invocations r)\<rparr>"
  have shift: "\<And>j. outcome f (op_state r) (Suc j) = outcome f s j" using fx by simp
  have filt: "filter (\<lambda>j. outcome f (op_state r) j = Inr False) [0..<Suc k]
      = (if x = Inr False then [0] else [])
        @ map Suc (filter (\<lambda>j. outcome f s j = Inr False) [0..<k])"
    using fx shift
    by (simp add: upt_conv_Cons del: upt_Suc flip: map_Suc_upt add: filter_map o_def)
  have p1: "int (Suc i + k) < maxRetries" using Suc.prems(1) by simp
  have p2: "outcome f s k = Inr True" using Suc.prems(2) fx by simp
  have p3: "\<And>j. j < k \<Longrightarrow> outcome f s j \<noteq> Inr True"
  proof -
    fix j assume "j < k"
    then have "Suc j < Suc k" by simp
    from Suc.prems(3)[OF this] show "outcome f s j \<noteq> Inr True" using fx by simp
  qed
  show ?case
  proof (cases x)
    case (Inl e)
    have step: "publishWithRetry_loop f maxRetries delayMs i r
        = publishWithRetry_loop f maxRetries delayMs (Suc i) ?r1"
      using fx Inl lt by (subst loop_unfold) (simp add: Let_def)
    have IH: "fst (publishWithRetry_loop f maxRetries delayMs (Suc i) ?r1) = Inr True
       \<and> invocations (snd (publishWithRetry_loop f maxRetries delayMs (Suc i) ?r1))
           = invocations ?r1 + Suc k
       \<and> waits (snd (publishWithRetry_loop f maxRetries delayMs (Suc i) ?r1))
           = waits ?r1 @ map (\<lambda>j. delayMs * 2 ^ (Suc i + j))
                           (filter (\<lambda>j. outcome f (op_state ?r1) j = Inr False) [0..<k])"
      by (rule Suc.IH) (use p1 p2 p3 in simp_all)
    show ?thesis unfolding step filt using IH Inl by (simp add: o_def del: upt_Suc)
  next
    case (Inr b)
    with x have b: "b = False" by simp
    let ?r2 = "?r1\<lparr>waits := waits ?r1 @ [delayMs * 2 ^ i]\<rparr>"
    have step: "publishWithRetry_loop f maxRetries delayMs i r
        = publishWithRetry_loop f maxRetries delayMs (Suc i) ?r2"
      using fx Inr b lt by (subst loop_unfold) (simp add: Let_def)
    have IH: "fst (publishWithRetry_loop f maxRetries delayMs (Suc i) ?r2) = Inr True
       \<and> invocations (snd (publishWithRetry_loop f maxRetries delayMs (Suc i) ?r2))
           = invocations ?r2 + Suc k
       \<and> waits (snd (publishWithRetry_loop f maxRetries delayMs (Suc i) ?r2))
           = waits ?r2 @ map (\<lambda>j. delayMs * 2 ^ (Suc i + j))
                           (filter (\<lambda>j. outcome f (op_state ?r2) j = Inr False) [0..<k])"
      by (rule Suc.IH) (use p1 p2 p3 in simp_all)
    show ?thesis unfolding step filt using IH Inr b by (simp add: o_def del: upt_Suc)
  qed
qed

text \<open>
  If no attempt left in the budget answers true, the loop makes them all and ends with
  what the last one answered: false, or the error it threw.
\<close>

lemma retry_exhausted:
  assumes "int i < maxRetries"
    and "n = nat maxRetries - Suc i"
    and "\<And>j. int (i + j) < maxRetries \<Longrightarrow> outcome f (op_state r) j \<noteq> Inr True"
  shows "fst (publishWithRetry_loop f maxRetries delayMs i r) = outcome f (op_state r) n
       \<and> invocations (snd (publishWithRetry_loop f maxRetries delayMs i r)) = invocations r + Suc n"
  using assms
proof (induction n arbitrary: i r)
  case 0
  then have last: "int i = maxRetries - 1" by linarith
  obtain x s where fx: "f (op_state r) = (x, s)" by (cases "f (op_state r)")
  from "0.prems"(3)[of 0] "0.prems"(1) fx have x: "x \<noteq> Inr True" by simp
  have stop: "\<And>r'. publishWithRetry_loop f maxRetries delayMs (Suc i) r' = (Inr False, r')"
    using last by (subst loop_unfold) simp
  show ?case
  proof (cases x)
    case (Inl e)
    then show ?thesis using fx last "0.prems"(1)
      by (subst (1 2) loop_unfold) (simp add: Let_def)
  next
    case (Inr b)
    with x have "b = False" by simp
    then show ?thesis using fx last Inr "0.prems"(1) stop
      by (subst (1 2) loop_unfold) (simp add: Let_def)
  qed
next
  case (Suc n)
  obtain x s where fx: "f (op_state r) = (x, s)" by (cases "f (op_state r)")
  from Suc.prems(3)[of 0] Suc.prems(1) fx have x: "x \<noteq> Inr True" by simp
  have lt: "int i < maxRetries - 1" using Suc.prems(2) by linarith
  let ?r1 = "r\<lparr>op_state := s, invocations := Suc (invocations r)\<rparr>"
  have p1: "int (Suc i) < maxRetries" using lt by simp
  have p2: "n = nat maxRetries - Suc (Suc i)" using Suc.prems(2) by linarith
  have p3: "\<And>j. int (Suc i + j) < maxRetries \<Longrightarrow> outcome f s j \<noteq> Inr True"
  proof -
    fix j assume "int (Suc i + j) < maxRetries"
    then have "int (i + Suc j) < maxRetries" by simp
    from Suc.prems(3)[OF this] show "outcome f s j \<noteq> Inr True" using fx by simp
  qed
  show ?case
  proof (cases x)
    case (Inl e)
    have step: "publishWithRetry_loop f maxRetries delayMs i r
        = publishWithRetry_loop f maxRetries delayMs (Suc i) ?r1"
      using fx Inl lt by (subst loop_unfold) (simp add: Let_def)
    have IH: "fst (publishWithRetry_loop f maxRetries delayMs (Suc i) ?r1)
           = outcome f (op_state ?r1) n
       \<and> invocations (snd (publishWithRetry_loop f maxRetries delayMs (Suc i) ?r1))
           = invocations ?r1 + Suc n"
      by (rule Suc.IH) (use p1 p2 p3 in simp_all)
    show ?thesis using IH fx by (simp add: step)
  next
    case (Inr b)
    with x have b: "b = False" by simp
    let ?r2 = "?r1\<lparr>waits := waits ?r1 @ [delayMs * 2 ^ i]\<rparr>"
    have step: "publishWithRetry_loop f maxRetries delayMs i r
        = publishWithRetry_loop f maxRetries delayMs (Suc i) ?r2"
      using fx Inr b lt by (subst loop_unfold) (simp add: Let_def)
    have IH: "fst (publishWithRetry_loop f maxRetries delayMs (Suc i) ?r2)
           = outcome f (op_state ?r2) n
       \<and> invocations (snd (publishWithRetry_loop f maxRetries delayMs (Suc i) ?r2))
           = invocations ?r2 + Suc n"
      by (rule Suc.IH) (use p1 p2 p3 in simp_all)
    show ?thesis using IH fx by (simp add: step)
  qed
qed

text \<open>
  Claim C3. For every operation and every \<open>maxAttempts \<ge> 1\<close>: publishWithRetry returns
  true as soon as an invocation answers true, after exactly that many invocations, having
  slept \<open>baseDelayMs * 2 ^ j\<close> after each invocation \<open>j\<close> (counted from 0) that
  answered false. In particular an operation answering false, false, false, true with
  \<open>maxAttempts = 5\<close> is invoked 4 times and the waits are \<open>baseDelayMs\<close> times 1, 2, 4.
  If none of the \<open>maxAttempts\<close> invocations answers true, all of them are made and the
  result is false when the last one answered false, and the last one's error when it threw.
\<close>

theorem publishWithRetry_spec:
  assumes "1 \<le> maxAttempts"
  shows
    "(\<forall>k. int k < maxAttempts \<and> outcome publishFunction s k = Inr True
           \<and> (\<forall>j<k. outcome publishFunction s j \<noteq> Inr True) \<longrightarrow>
        fst (publishWithRetry publishFunction maxAttempts baseDelayMs s) = Inr True
        \<and> invocations (snd (publishWithRetry publishFunction maxAttempts baseDelayMs s)) = Suc k
        \<and> waits (snd (publishWithRetry publishFunction maxAttempts baseDelayMs s))
            = map (\<lambda>j. baseDelayMs * 2 ^ j)
                (filter (\<lambda>j. outcome publishFunction s j = Inr False) [0..<k]))
     \<and> (maxAttempts = 5
         \<and> outcome publishFunction s 0 = Inr False \<and> outcome publishFunction s 1 = Inr False
         \<and> outcome publishFunction s 2 = Inr False \<and> outcome publishFunction s 3 = Inr True \<longrightarrow>
        fst (publishWithRetry publishFunction maxAttempts baseDelayMs s) = Inr True
        \<and> invocations (snd (publishWithRetry publishFunction maxAttempts baseDelayMs s)) = 4
        \<and> waits (snd (publishWithRetry publishFunction maxAttempts baseDelayMs s))
            = [baseDelayMs * 2 ^ 0, baseDelayMs * 2 ^ 1, baseDelayMs * 2 ^ 2])
     \<and> ((\<forall>j. int j < maxAttempts \<longrightarrow> outcome publishFunction s j \<noteq> Inr True) \<longrightarrow>
        invocations (snd (publishWithRetry publishFunction maxAttempts baseDelayMs s))
          = nat maxAttempts
        \<and> (outcome publishFunction s (nat maxAttempts - 1) = Inr False \<longrightarrow>
             fst (publishWithRetry publishFunction maxAttempts baseDelayMs s) = Inr False)
        \<and> (\<forall>e. outcome publishFunction s (nat maxAttempts - 1) = Inl e \<longrightarrow>
             fst (publishWithRetry publishFunction maxAttempts baseDelayMs s) = Inl e))"
    (is "?A \<and> ?B \<and> ?C")
proof -
  let ?start = "\<lparr>op_state = s, invocations = 0, waits = []\<rparr>"
  have succ: "fst (publishWithRetry publishFunction maxAttempts baseDelayMs s) = Inr True
        \<and> invocations (snd (publishWithRetry publishFunction maxAttempts baseDelayMs s)) = Suc k
        \<and> waits (snd (publishWithRetry publishFunction maxAttempts baseDelayMs s))
            = map (\<lambda>j. baseDelayMs * 2 ^ j)
                (filter (\<lambda>j. outcome publishFunction s j = Inr False) [0..<k])"
    if "int k < maxAttempts" "outcome publishFunction s k = Inr True"
       "\<forall>j<k. outcome publishFunction s j \<noteq> Inr True" for k
    using retry_success[of 0 k maxAttempts publishFunction ?start baseDelayMs] that
    by (simp add: publishWithRetry_def)
  have A: ?A using succ by blast
  have B: ?B
  proof (intro impI)
    assume h: "maxAttempts = 5
         \<and> outcome publishFunction s 0 = Inr False \<and> outcome publishFunction s 1 = Inr False
         \<and> outcome publishFunction s 2 = Inr False \<and> outcome publishFunction s 3 = Inr True"
    have "\<forall>j<3. outcome publishFunction s j \<noteq> Inr True"
    proof (intro allI impI)
      fix j :: nat assume "j < 3"
      then have "j = 0 \<or> j = 1 \<or> j = 2" by arith
      then show "outcome publishFunction s j \<noteq> Inr True" using h by auto
    qed
    with succ[of 3] h
    show "fst (publishWithRetry publishFunction maxAttempts baseDelayMs s) = Inr True
        \<and> invocations (snd (publishWithRetry publishFunction maxAttempts baseDelayMs s)) = 4
        \<and> waits (snd (publishWithRetry publishFunction maxAttempts baseDelayMs s))
            = [baseDelayMs * 2 ^ 0, baseDelayMs * 2 ^ 1, baseDelayMs * 2 ^ 2]"
      by (simp add: upt_rec eval_nat_numeral)
  qed
  have C: ?C
  proof (intro impI)
    assume h: "\<forall>j. int j < maxAttempts \<longrightarrow> outcome publishFunction s j \<noteq> Inr True"
    have "fst (publishWithRetry_loop publishFunction maxAttempts baseDelayMs 0 ?start)
            = outcome publishFunction (op_state ?start) (nat maxAttempts - 1)
        \<and> invocations (snd (publishWithRetry_loop publishFunction maxAttempts baseDelayMs 0 ?start))
            = invocations ?start + Suc (nat maxAttempts - 1)"
      by (rule retry_exhausted) (use assms h in simp_all)
    with assms
    show "invocations (snd (publishWithRetry publishFunction maxAttempts baseDelayMs s))
          = nat maxAttempts
        \<and> (outcome publishFunction s (nat maxAttempts - 1) = Inr False \<longrightarrow>
             fst (publishWithRetry publishFunction maxAttempts baseDelayMs s) = Inr False)
        \<and> (\<forall>e. outcome publishFunction s (nat maxAttempts - 1) = Inl e \<longrightarrow>
             fst (publishWithRetry publishFunction maxAttempts baseDelayMs s) = Inl e)"
      by (simp add: publishWithRetry_def)
  qed
  from A B C show ?thesis by blast
qed

text \<open>
  The scenario of the specification with a base delay of one second, a run of two
  attempts that both answer false, and one whose last attempt throws.
\<close>

theorem publishWithRetry_spec_witness:
  "fst (publishWithRetry scripted 5 1000 [Inr False, Inr False, Inr False, Inr True]) = Inr True
   \<and> invocations (snd (publishWithRetry scripted 5 1000 [Inr False, Inr False, Inr False, Inr True])) = 4
   \<and> waits (snd (publishWithRetry scripted 5 1000 [Inr False, Inr False, Inr False, Inr True]))
       = [1000, 2000, 4000]
   \<and> fst (publishWithRetry scripted 2 1000 [Inr False, Inr False]) = Inr False
   \<and> invocations (snd (publishWithRetry scripted 2 1000 [Inr False, Inr False])) = 2
   \<and> fst (publishWithRetry scripted 2 1000 [Inr False, Inl (Thrown ''channel closed'')])
       = Inl (Thrown ''channel closed'')"
proof -
  let ?s1 = "[Inr False, Inr False, Inr False, Inr True] :: (error + bool) list"
  let ?s2 = "[Inr False, Inr False] :: (error + bool) list"
  let ?s3 = "[Inr False, Inl (Thrown ''channel closed'')] :: (error + bool) list"
  have o1: "outcome scripted ?s1 0 = Inr False" "outcome scripted ?s1 1 = Inr False"
           "outcome scripted ?s1 2 = Inr False" "outcome scripted ?s1 3 = Inr True"
    by (simp_all add: eval_nat_numeral)
  have h2: "\<forall>j. int j < 2 \<longrightarrow> outcome scripted ?s2 j \<noteq> Inr True"
  proof (intro allI impI)
    fix j :: nat assume "int j < 2"
    then have "j = 0 \<or> j = Suc 0" by arith
    then show "outcome scripted ?s2 j \<noteq> Inr True" by auto
  qed
  have h3: "\<forall>j. int j < 2 \<longrightarrow> outcome scripted ?s3 j \<noteq> Inr True"
  proof (intro allI impI)
    fix j :: nat assume "int j < 2"
    then have "j = 0 \<or> j = Suc 0" by arith
    then show "outcome scripted ?s3 j \<noteq> Inr True" by auto
  qed
  have l2: "outcome scripted ?s2 (nat 2 - 1) = Inr False" by (simp add: eval_nat_numeral)
  have l3: "outcome scripted ?s3 (nat 2 - 1) = Inl (Thrown ''channel closed'')"
    by (simp add: eval_nat_numeral)
  have w1: "fst (publishWithRetry scripted 5 1000 ?s1) = Inr True
        \<and> invocations (snd (publishWithRetry scripted 5 1000 ?s1)) = 4
        \<and> waits (snd (publishWithRetry scripted 5 1000 ?s1))
            = [1000 * 2 ^ 0, 1000 * 2 ^ 1, 1000 * 2 ^ 2]"
    using publishWithRetry_spec[of 5 scripted ?s1 1000] o1 by simp
  have w2: "fst (publishWithRetry scripted 2 1000 ?s2) = Inr False
        \<and> invocations (snd (publishWithRetry scripted 2 1000 ?s2)) = 2"
    using publishWithRetry_spec[of 2 scripted ?s2 1000] h2 l2 by simp
  have w3: "fst (publishWithRetry scripted 2 1000 ?s3) = Inl (Thrown ''channel closed'')"
    using publishWithRetry_spec[of 2 scripted ?s3 1000] h3 l3 by simp
  from w1 w2 w3 show ?thesis by simp
qed

subsection \<open>The consumer callback\<close>

lemma demo_parse:
  "JSON_parse demo_env ''{}'' = Inr (JObj [])"
  "JSON_parse demo_env ''null'' = Inr JNull"
  "JSON_parse demo_env ''<html>'' = Inl (Thrown ''SyntaxError'')"
  by (simp_all add: demo_env_def)

lemmas consume_defs = consume_callback_def consume_try_def log_def Let_def

text \<open>
  When the handler settles and \<open>channel.ack\<close>, if called, returns, the callback makes
  one call on the channel: the ack or the nack with requeue.
\<close>

lemma consume_callback_settled_once:
  assumes "chan_ack E channel m = Inr ()"
    and "\<And>v. JSON_parse E (content m) = Inr v \<Longrightarrow> handler v \<noteq> None"
  shows "calls (snd (consume_callback E channel handler (Some m) st)) = calls st @ [Ack channel m]
       \<or> calls (snd (consume_callback E channel handler (Some m) st))
           = calls st @ [Nack channel m False True]"
proof (cases "JSON_parse E (content m)")
  case (Inl e)
  then show ?thesis by (simp add: consume_defs split: sum.splits)
next
  case (Inr v)
  from assms(2)[OF Inr] obtain r where r: "handler v = Some r" by auto
  show ?thesis using Inr r assms(1)
    by (cases r; cases "get_property v ''id''") (simp_all add: consume_defs split: sum.splits)
qed

text \<open>
  Claim C1, amended. For every delivery given to the callback that consume installs: if
  \<open>JSON.parse\<close> of the body fails, or yields \<open>null\<close> (reading \<open>message.id\<close> then
  throws), the message is negatively acknowledged with requeue = true, exactly as when the
  handler throws or rejects; if parsing yields a value other than \<open>null\<close> and the
  handler completes, \<open>channel.ack(msg)\<close> is called and, when that call returns, the
  message is acknowledged and nothing else is done. No path rejects without requeue.
\<close>

theorem consume_callback_policy:
  "(\<forall>e. JSON_parse E (content m) = Inl e \<longrightarrow>
      calls (snd (consume_callback E channel handler (Some m) st))
        = calls st @ [Nack channel m False True])
   \<and> (JSON_parse E (content m) = Inr JNull \<longrightarrow>
      calls (snd (consume_callback E channel handler (Some m) st))
        = calls st @ [Nack channel m False True])
   \<and> (\<forall>v. JSON_parse E (content m) = Inr v \<and> v \<noteq> JNull \<and> v \<noteq> JUndefined
          \<and> handler v = Some (Inr ()) \<and> chan_ack E channel m = Inr () \<longrightarrow>
      calls (snd (consume_callback E channel handler (Some m) st)) = calls st @ [Ack channel m])
   \<and> (\<forall>v e. JSON_parse E (content m) = Inr v \<and> handler v = Some (Inl e) \<longrightarrow>
      calls (snd (consume_callback E channel handler (Some m) st))
        = calls st @ [Nack channel m False True])"
  (is "?A \<and> ?B \<and> ?C \<and> ?D")
proof -
  have A: ?A by (auto simp: consume_defs split: sum.splits)
  have B: ?B by (auto simp: consume_defs get_property_def split: sum.splits)
  have C: ?C
    by (auto simp: consume_defs get_property_def split: sum.splits jsval.splits)
  have D: ?D
    by (auto simp: consume_defs get_property_def split: sum.splits jsval.splits)
  from A B C D show ?thesis by blast
qed

text \<open>
  The four cases in the demo world: a body that does not parse, the body \<open>null\<close>, the
  body \<open>{}\<close> with a handler that completes, and with a handler that throws.
\<close>

theorem consume_callback_policy_witness:
  "calls (snd (consume_callback demo_env 1 ok_handler (Some garbled) new_RabbitMQConnection))
     = [Nack 1 garbled False True]
   \<and> calls (snd (consume_callback demo_env 1 ok_handler (Some null_body) new_RabbitMQConnection))
     = [Nack 1 null_body False True]
   \<and> calls (snd (consume_callback demo_env 1 ok_handler (Some reply_p1) new_RabbitMQConnection))
     = [Ack 1 reply_p1]
   \<and> calls (snd (consume_callback demo_env 1 failing_handler (Some reply_p1)
                   new_RabbitMQConnection))
     = [Nack 1 reply_p1 False True]"
proof -
  have e: "calls new_RabbitMQConnection = []" by (simp add: new_RabbitMQConnection_def)
  have g: "JSON_parse demo_env (content garbled) = Inl (Thrown ''SyntaxError'')"
    by (simp add: garbled_def demo_parse)
  have n: "JSON_parse demo_env (content null_body) = Inr JNull"
    by (simp add: null_body_def demo_parse)
  have p: "JSON_parse demo_env (content reply_p1) = Inr (JObj [])"
    by (simp add: reply_p1_def demo_parse)
  have a: "chan_ack demo_env 1 reply_p1 = Inr ()" by (simp add: demo_env_def)
  have ok: "ok_handler (JObj []) = Some (Inr ())" by (simp add: ok_handler_def)
  have ko: "failing_handler (JObj []) = Some (Inl (Thrown ''handler failed''))"
    by (simp add: failing_handler_def)
  have w1: "calls (snd (consume_callback demo_env 1 ok_handler (Some garbled)
                         new_RabbitMQConnection))
     = [Nack 1 garbled False True]"
    using consume_callback_policy[of demo_env garbled 1 ok_handler new_RabbitMQConnection] g e
    by simp
  have w2: "calls (snd (consume_callback demo_env 1 ok_handler (Some null_body)
                         new_RabbitMQConnection))
     = [Nack 1 null_body False True]"
    using consume_callback_policy[of demo_env null_body 1 ok_handler new_RabbitMQConnection] n e
    by simp
  have w3: "calls (snd (consume_callback demo_env 1 ok_handler (Some reply_p1)
                         new_RabbitMQConnection))
     = [Ack 1 reply_p1]"
    using consume_callback_policy[of demo_env reply_p1 1 ok_handler new_RabbitMQConnection]
      p ok a e
    by simp
  have w4: "calls (snd (consume_callback demo_env 1 failing_handler (Some reply_p1)
                         new_RabbitMQConnection))
     = [Nack 1 reply_p1 False True]"
    using consume_callback_policy[of demo_env reply_p1 1 failing_handler new_RabbitMQConnection]
      p ko e
    by simp
  from w1 w2 w3 w4 show ?thesis by simp
qed

text \<open>
  Against the wording of C1 (a body that cannot be deserialized is rejected without
  requeue): the body \<open><html>\<close> does not parse, and the callback's only call is
  \<open>nack(msg, false, true)\<close>, with requeue.
\<close>

theorem consume_garbled_counterexample:
  "JSON_parse demo_env (content garbled) = Inl (Thrown ''SyntaxError'')
   \<and> calls (snd (consume_callback demo_env 1 ok_handler (Some garbled) new_RabbitMQConnection))
     = [Nack 1 garbled False True]
   \<and> calls (snd (consume_callback demo_env 1 ok_handler (Some garbled) new_RabbitMQConnection))
     \<noteq> [Nack 1 garbled False False]"
  by (simp add: consume_defs demo_parse garbled_def new_RabbitMQConnection_def demo_env_def)

text \<open>
  Claim C10, amended. For every non-null delivery whose handler settles (when it is
  called) and whose \<open>channel.ack\<close> (when it is called) returns, the callback installed
  by consume makes exactly one settlement call, a single ack or a single nack with
  requeue, whatever parsing and the handler answer. While the handler's promise has not
  settled the callback has made no settlement call; on a null delivery it makes none and
  returns.
\<close>

theorem consume_callback_settlement:
  "(chan_ack E channel m = Inr ()
      \<and> (\<forall>v. JSON_parse E (content m) = Inr v \<longrightarrow> handler v \<noteq> None) \<longrightarrow>
      length (filter is_settlement (calls (snd (consume_callback E channel handler (Some m) st))))
        = Suc (length (filter is_settlement (calls st)))
      \<and> (calls (snd (consume_callback E channel handler (Some m) st)) = calls st @ [Ack channel m]
         \<or> calls (snd (consume_callback E channel handler (Some m) st))
             = calls st @ [Nack channel m False True]))
   \<and> (\<forall>v. JSON_parse E (content m) = Inr v \<and> v \<noteq> JNull \<and> v \<noteq> JUndefined
          \<and> handler v = None \<longrightarrow>
      consume_callback E channel handler (Some m) st = (None, st))
   \<and> consume_callback E channel handler None st = (Some (Inr ()), st)"
  (is "?A \<and> ?B \<and> ?C")
proof -
  have A: ?A
  proof
    assume h: "chan_ack E channel m = Inr ()
      \<and> (\<forall>v. JSON_parse E (content m) = Inr v \<longrightarrow> handler v \<noteq> None)"
    then have "calls (snd (consume_callback E channel handler (Some m) st))
                 = calls st @ [Ack channel m]
       \<or> calls (snd (consume_callback E channel handler (Some m) st))
           = calls st @ [Nack channel m False True]"
      by (intro consume_callback_settled_once) auto
    then show "length (filter is_settlement
                 (calls (snd (consume_callback E channel handler (Some m) st))))
        = Suc (length (filter is_settlement (calls st)))
      \<and> (calls (snd (consume_callback E channel handler (Some m) st)) = calls st @ [Ack channel m]
         \<or> calls (snd (consume_callback E channel handler (Some m) st))
             = calls st @ [Nack channel m False True])"
      by auto
  qed
  have B: ?B by (auto simp: consume_defs get_property_def split: jsval.splits)
  have C: ?C by (simp add: consume_callback_def)
  from A B C show ?thesis by blast
qed

text \<open>
  One settlement call for the body \<open>{}\<close> and for a body that does not parse; none while
  the handler hangs; none for a null delivery.
\<close>

theorem consume_callback_settlement_witness:
  "length (filter is_settlement
     (calls (snd (consume_callback demo_env 1 ok_handler (Some reply_p1) new_RabbitMQConnection))))
     = 1
   \<and> length (filter is_settlement
     (calls (snd (consume_callback demo_env 1 ok_handler (Some garbled) new_RabbitMQConnection))))
     = 1
   \<and> consume_callback demo_env 1 hung_handler (Some reply_p1) new_RabbitMQConnection
       = (None, new_RabbitMQConnection)
   \<and> consume_callback demo_env 1 ok_handler None new_RabbitMQConnection
       = (Some (Inr ()), new_RabbitMQConnection)"
proof -
  have e: "calls new_RabbitMQConnection = []" by (simp add: new_RabbitMQConnection_def)
  have a: "\<And>m. chan_ack demo_env 1 m = Inr ()" by (simp add: demo_env_def)
  have ok: "\<And>v. ok_handler v \<noteq> None" by (simp add: ok_handler_def)
  have p: "JSON_parse demo_env (content reply_p1) = Inr (JObj [])"
    by (simp add: reply_p1_def demo_parse)
  have hung: "hung_handler (JObj []) = None" by (simp add: hung_handler_def)
  have w1: "length (filter is_settlement
     (calls (snd (consume_callback demo_env 1 ok_handler (Some reply_p1) new_RabbitMQConnection))))
     = 1"
    using consume_callback_settlement[of demo_env 1 reply_p1 ok_handler new_RabbitMQConnection]
      a ok e
    by simp
  have w2: "length (filter is_settlement
     (calls (snd (consume_callback demo_env 1 ok_handler (Some garbled) new_RabbitMQConnection))))
     = 1"
    using consume_callback_settlement[of demo_env 1 garbled ok_handler new_RabbitMQConnection]
      a ok e
    by simp
  have w3: "consume_callback demo_env 1 hung_handler (Some reply_p1) new_RabbitMQConnection
       = (None, new_RabbitMQConnection)"
    using consume_callback_settlement[of demo_env 1 reply_p1 hung_handler new_RabbitMQConnection]
      p hung
    by simp
  have w4: "consume_callback demo_env 1 ok_handler None new_RabbitMQConnection
       = (Some (Inr ()), new_RabbitMQConnection)"
    using consume_callback_settlement[of demo_env 1 reply_p1 ok_handler new_RabbitMQConnection]
    by simp
  from w1 w2 w3 w4 show ?thesis by simp
qed

text \<open>
  Against the wording of C10 (never zero and never both): on a channel that was closed
  while the handler ran, \<open>channel.ack\<close> throws inside the \<open>try\<close> block and the
  \<open>catch\<close> block calls \<open>channel.nack\<close> as well, two settlement calls for one
  delivery; and with a handler whose promise never settles there is no settlement call.
\<close>

theorem consume_callback_settlement_counterexample:
  "calls (snd (consume_callback closed_channel_env 1 ok_handler (Some reply_p1)
                 new_RabbitMQConnection))
     = [Ack 1 reply_p1, Nack 1 reply_p1 False True]
   \<and> length (filter is_settlement
       (calls (snd (consume_callback closed_channel_env 1 ok_handler (Some reply_p1)
                      new_RabbitMQConnection)))) = 2
   \<and> length (filter is_settlement
       (calls (snd (consume_callback demo_env 1 hung_handler (Some reply_p1)
                      new_RabbitMQConnection)))) = 0"
  by (simp add: consume_defs demo_env_def closed_channel_env_def reply_p1_def ok_handler_def
        hung_handler_def get_property_def new_RabbitMQConnection_def)

subsection \<open>The channel pool\<close>

lemma getChannel_cached:
  "channels st name = Some ch \<Longrightarrow> getChannel E name st = (Inr ch, st)"
  by (simp add: getChannel_def)

lemma getChannel_on_error:
  "fst (getChannel E name (on_error st)) = fst (getChannel E name st)"
  by (simp add: getChannel_def on_error_def log_def Let_def split: option.splits sum.splits)

lemmas connect_demo_defs =
  connect_def initializeExchanges_def initializeQueues_def deadLetterPath_def getChannel_def
  log_def Let_def demo_env_def new_RabbitMQConnection_def exchanges_def EXCHANGES_def
  queues_def QUEUES_def

lemma connected_pool_fields:
  "connection connected_pool = Some 0"
  "channels connected_pool ''init'' = Some 1"
  "channels connected_pool ''publisher'' = None"
  "connected connected_pool = True"
  by (simp_all add: connected_pool_def connect_demo_defs)

text \<open>
  Claim C8 fails in the code. The claim: after a connection-level error the pool is
  marked disconnected and every later getChannel call fails until a reconnect. The
  code: the error listener sets \<open>connected\<close> to false, but getChannel reads only the
  cache and the connection object, never that flag. On the pool left by a successful
  connect, once the error listener has run, the pool is marked disconnected and
  \<open>getChannel('init')\<close> still returns the cached channel 1 and leaves the pool as it
  is.
\<close>

theorem getChannel_after_error:
  "connected (on_error connected_pool) = False
   \<and> getChannel demo_env ''init'' (on_error connected_pool)
       = (Inr 1, on_error connected_pool)"
  by (simp add: on_error_def getChannel_def connected_pool_fields)

subsection \<open>The publisher\<close>

lemma publish_returns_boolean:
  "\<exists>b. fst (publish E exchange routingKey message options st) = Inr b"
  by (auto simp: publish_def Let_def split: prod.splits sum.splits)

lemma sendToQueue_returns_boolean:
  "\<exists>b. fst (sendToQueue E queue message options st) = Inr b"
  by (auto simp: sendToQueue_def Let_def split: prod.splits sum.splits)

lemma open_pool_publisher: "getChannel E ''publisher'' open_pool = (Inr 1, open_pool)"
  by (rule getChannel_cached) (simp add: open_pool_def)

text \<open>
  Claim C2, amended. publish and sendToQueue never raise: every call returns a boolean.
  When the channel is acquired, the message serialized and the write made, the result is
  the boolean amqplib returns (false: backpressure). When getChannel fails (no usable
  channel), when serializing throws or when the write itself throws, the error is caught
  and the result is false as well; so false does not signal backpressure only.
\<close>

theorem publish_never_raises:
  "(\<exists>b. fst (publish E exchange routingKey message options st) = Inr b)
   \<and> (\<exists>b. fst (sendToQueue E queue message options st) = Inr b)
   \<and> (\<forall>e. fst (getChannel E ''publisher'' st) = Inl e \<longrightarrow>
        fst (publish E exchange routingKey message options st) = Inr False
        \<and> fst (sendToQueue E queue message options st) = Inr False)
   \<and> (\<forall>ch e. fst (getChannel E ''publisher'' st) = Inr ch \<and> JSON_stringify E message = Inl e \<longrightarrow>
        fst (publish E exchange routingKey message options st) = Inr False
        \<and> fst (sendToQueue E queue message options st) = Inr False)
   \<and> (\<forall>ch buffer e. fst (getChannel E ''publisher'' st) = Inr ch
        \<and> JSON_stringify E message = Inr buffer
        \<and> chan_publish E ch exchange routingKey buffer (messageOptions message options) = Inl e \<longrightarrow>
        fst (publish E exchange routingKey message options st) = Inr False)
   \<and> (\<forall>ch buffer e. fst (getChannel E ''publisher'' st) = Inr ch
        \<and> JSON_stringify E message = Inr buffer
        \<and> chan_sendToQueue E ch queue buffer (messageOptions message options) = Inl e \<longrightarrow>
        fst (sendToQueue E queue message options st) = Inr False)
   \<and> (\<forall>ch buffer b. fst (getChannel E ''publisher'' st) = Inr ch
        \<and> JSON_stringify E message = Inr buffer
        \<and> chan_publish E ch exchange routingKey buffer (messageOptions message options) = Inr b \<longrightarrow>
        fst (publish E exchange routingKey message options st) = Inr b)
   \<and> (\<forall>ch buffer b. fst (getChannel E ''publisher'' st) = Inr ch
        \<and> JSON_stringify E message = Inr buffer
        \<and> chan_sendToQueue E ch queue buffer (messageOptions message options) = Inr b \<longrightarrow>
        fst (sendToQueue E queue message options st) = Inr b)"
  (is "?A \<and> ?B \<and> ?C \<and> ?D \<and> ?F \<and> ?G \<and> ?H \<and> ?I")
proof -
  have A: ?A by (rule publish_returns_boolean)
  have B: ?B by (rule sendToQueue_returns_boolean)
  have C: ?C by (cases "getChannel E ''publisher'' st") (auto simp: publish_def sendToQueue_def)
  have D: ?D by (cases "getChannel E ''publisher'' st") (auto simp: publish_def sendToQueue_def)
  have F: ?F by (cases "getChannel E ''publisher'' st") (auto simp: publish_def Let_def)
  have G: ?G by (cases "getChannel E ''publisher'' st") (auto simp: sendToQueue_def Let_def)
  have H: ?H by (cases "getChannel E ''publisher'' st") (auto simp: publish_def Let_def)
  have I: ?I by (cases "getChannel E ''publisher'' st") (auto simp: sendToQueue_def Let_def)
  from A B C D F G H I show ?thesis by blast
qed

text \<open>
  A pool that was never connected; a message that cannot be serialized; a channel whose
  writes throw; and the good case.
\<close>

theorem publish_never_raises_witness:
  "fst (publish demo_env ''payment.events'' ''payment.confirmed'' p1 None new_RabbitMQConnection)
     = Inr False
   \<and> fst (sendToQueue demo_env ''webhook.notification'' p1 None new_RabbitMQConnection) = Inr False
   \<and> fst (publish (demo_env\<lparr>JSON_stringify := (\<lambda>message. Inl (Thrown ''circular structure''))\<rparr>)
            ''payment.events'' ''payment.confirmed'' p1 None open_pool) = Inr False
   \<and> fst (publish closed_channel_env ''payment.events'' ''payment.confirmed'' p1 None open_pool)
     = Inr False
   \<and> fst (sendToQueue closed_channel_env ''webhook.notification'' p1 None open_pool) = Inr False
   \<and> fst (publish demo_env ''payment.events'' ''payment.confirmed'' p1 None open_pool) = Inr True
   \<and> fst (sendToQueue demo_env ''webhook.notification'' p1 None open_pool) = Inr True"
proof -
  let ?nojson = "demo_env\<lparr>JSON_stringify := (\<lambda>message. Inl (Thrown ''circular structure''))\<rparr>"
  have g0: "fst (getChannel demo_env ''publisher'' new_RabbitMQConnection) = Inl NotConnected"
    by (simp add: getChannel_def new_RabbitMQConnection_def)
  have g1: "\<And>E. fst (getChannel E ''publisher'' open_pool) = Inr 1"
    by (simp add: open_pool_publisher)
  have j: "JSON_stringify demo_env p1 = Inr ''p1''"
          "JSON_stringify closed_channel_env p1 = Inr ''p1''"
          "JSON_stringify ?nojson p1 = Inl (Thrown ''circular structure'')"
    by (simp_all add: demo_env_def closed_channel_env_def p1_def)
  have c: "\<And>x r b opts. chan_publish closed_channel_env 1 x r b opts = Inl (Thrown ''Channel closed'')"
          "\<And>q b opts. chan_sendToQueue closed_channel_env 1 q b opts = Inl (Thrown ''Channel closed'')"
          "\<And>x r b opts. chan_publish demo_env 1 x r b opts = Inr True"
          "\<And>q b opts. chan_sendToQueue demo_env 1 q b opts = Inr True"
    by (simp_all add: demo_env_def closed_channel_env_def)
  have w1: "fst (publish demo_env ''payment.events'' ''payment.confirmed'' p1 None new_RabbitMQConnection)
       = Inr False
     \<and> fst (sendToQueue demo_env ''webhook.notification'' p1 None new_RabbitMQConnection) = Inr False"
    using publish_never_raises[of demo_env "''payment.events''" "''payment.confirmed''" p1 None
            new_RabbitMQConnection "''webhook.notification''"] g0
    by simp
  have w2: "fst (publish ?nojson ''payment.events'' ''payment.confirmed'' p1 None open_pool) = Inr False"
    using publish_never_raises[of ?nojson "''payment.events''" "''payment.confirmed''" p1 None
            open_pool "''webhook.notification''"] g1[of ?nojson] j(3)
    by simp
  have w3: "fst (publish closed_channel_env ''payment.events'' ''payment.confirmed'' p1 None open_pool)
       = Inr False
     \<and> fst (sendToQueue closed_channel_env ''webhook.notification'' p1 None open_pool) = Inr False"
    using publish_never_raises[of closed_channel_env "''payment.events''" "''payment.confirmed''"
            p1 None open_pool "''webhook.notification''"] g1[of closed_channel_env] j(2) c(1,2)
    by simp
  have w4: "fst (publish demo_env ''payment.events'' ''payment.confirmed'' p1 None open_pool) = Inr True
     \<and> fst (sendToQueue demo_env ''webhook.notification'' p1 None open_pool) = Inr True"
    using publish_never_raises[of demo_env "''payment.events''" "''payment.confirmed''" p1 None
            open_pool "''webhook.notification''"] g1[of demo_env] j(1) c(3,4)
    by auto
  from w1 w2 w3 w4 show ?thesis by simp
qed

text \<open>
  Against the wording of C2 (an unusable channel makes the operation raise): on a pool
  that was never connected getChannel throws, and publish and sendToQueue return false.
\<close>

theorem publish_unusable_channel_counterexample:
  "fst (getChannel demo_env ''publisher'' new_RabbitMQConnection) = Inl NotConnected
   \<and> fst (publish demo_env ''payment.events'' ''payment.confirmed'' p1 None new_RabbitMQConnection)
       = Inr False
   \<and> fst (sendToQueue demo_env ''webhook.notification'' p1 None new_RabbitMQConnection)
       = Inr False"
  by (simp add: publish_def sendToQueue_def getChannel_def new_RabbitMQConnection_def)

text \<open>Looking a key up in \<open>{...obj, ...options}\<close>: the last writer wins.\<close>

lemma map_of_fold_update:
  "map_of (fold (\<lambda>kv. AList.update (fst kv) (snd kv)) props obj) k
     = (case map_of (rev props) k of None \<Rightarrow> map_of obj k | Some v \<Rightarrow> Some v)"
proof (induction props arbitrary: obj)
  case Nil
  then show ?case by simp
next
  case (Cons p props)
  show ?case
    by (cases p) (simp add: Cons.IH update_conv' map_add_def split: option.splits)
qed

lemma map_of_spread_absent:
  "options = None \<or> (\<exists>props. options = Some props \<and> k \<notin> fst ` set props)
     \<Longrightarrow> map_of (spread obj options) k = map_of obj k"
proof (cases options)
  case None
  then show ?thesis by (simp add: spread_def)
next
  case (Some props)
  assume "options = None \<or> (\<exists>props. options = Some props \<and> k \<notin> fst ` set props)"
  with Some have "k \<notin> fst ` set (rev props)" by simp
  then have "map_of (rev props) k = None" by (rule iffD2[OF map_of_eq_None_iff])
  with Some show ?thesis by (simp add: spread_def map_of_fold_update)
qed

lemma map_of_spread_present:
  assumes "distinct (map fst props)" and "(k, v) \<in> set props"
  shows "map_of (spread obj (Some props)) k = Some v"
proof -
  have "distinct (map fst (rev props))" using assms(1) by (simp add: rev_map[symmetric])
  moreover have "(k, v) \<in> set (rev props)" using assms(2) by simp
  ultimately have "map_of (rev props) k = Some v" by (rule map_of_is_SomeI)
  then show ?thesis by (simp add: spread_def map_of_fold_update)
qed

lemma messageOptions_stamped: "messageOptions message options = spread (stamped message) options"
  by (simp add: messageOptions_def stamped_def)

lemma publish_calls:
  "fst (getChannel E ''publisher'' st) = Inr ch \<Longrightarrow> JSON_stringify E message = Inr buffer \<Longrightarrow>
     calls (snd (publish E exchange routingKey message options st))
       = calls (snd (getChannel E ''publisher'' st))
           @ [ChanPublish ch exchange routingKey buffer (messageOptions message options)]"
  by (cases "getChannel E ''publisher'' st")
     (auto simp: publish_def Let_def log_def split: sum.splits)

lemma sendToQueue_calls:
  "fst (getChannel E ''publisher'' st) = Inr ch \<Longrightarrow> JSON_stringify E message = Inr buffer \<Longrightarrow>
     calls (snd (sendToQueue E queue message options st))
       = calls (snd (getChannel E ''publisher'' st))
           @ [ChanSendToQueue ch queue buffer (messageOptions message options)]"
  by (cases "getChannel E ''publisher'' st")
     (auto simp: sendToQueue_def Let_def log_def split: sum.splits)

text \<open>
  Claim C6, amended. Whenever publish or sendToQueue reaches the broker write (the channel
  was acquired and the message serialized), the options handed to amqplib are
  \<open>persistent = true\<close>, \<open>messageId = envelope.id\<close>, \<open>timestamp = envelope.timestamp\<close>
  and \<open>type = envelope.type\<close> overwritten by the caller's options: a key the options
  argument does not define (or any key, when no options are given) keeps the stamped
  value, and a key it defines takes the caller's value.
\<close>

theorem publish_message_options:
  "(\<forall>ch buffer. fst (getChannel E ''publisher'' st) = Inr ch
        \<and> JSON_stringify E message = Inr buffer \<longrightarrow>
      calls (snd (publish E exchange routingKey message options st))
        = calls (snd (getChannel E ''publisher'' st))
            @ [ChanPublish ch exchange routingKey buffer (messageOptions message options)]
      \<and> calls (snd (sendToQueue E queue message options st))
        = calls (snd (getChannel E ''publisher'' st))
            @ [ChanSendToQueue ch queue buffer (messageOptions message options)])
   \<and> (\<forall>k. options = None \<or> (\<exists>props. options = Some props \<and> k \<notin> fst ` set props) \<longrightarrow>
        map_of (messageOptions message options) k = map_of (stamped message) k)
   \<and> (\<forall>props k v. options = Some props \<and> distinct (map fst props) \<and> (k, v) \<in> set props \<longrightarrow>
        map_of (messageOptions message options) k = Some v)
   \<and> map_of (stamped message) ''persistent'' = Some (JBool True)
   \<and> map_of (stamped message) ''messageId'' = Some (JStr (id message))
   \<and> map_of (stamped message) ''timestamp'' = Some (JNum (timestamp message))
   \<and> map_of (stamped message) ''type'' = Some (JStr (type message))"
  (is "?A \<and> ?B \<and> ?C \<and> ?D")
proof -
  have A: ?A using publish_calls sendToQueue_calls by blast
  have B: ?B using map_of_spread_absent by (simp only: messageOptions_stamped) blast
  have C: ?C using map_of_spread_present by (simp only: messageOptions_stamped) blast
  have D: ?D by (simp add: stamped_def)
  from A B C D show ?thesis by blast
qed

text \<open>
  Options that add \<open>priority\<close> and overwrite \<open>persistent\<close>: \<open>messageId\<close> keeps the
  stamped value, \<open>persistent\<close> is the caller's.
\<close>

theorem publish_message_options_witness:
  "calls (snd (publish demo_env ''payment.events'' ''payment.confirmed'' p1
                 (Some [(''priority'', JNum 5), (''persistent'', JBool False)]) open_pool))
     = [ChanPublish 1 ''payment.events'' ''payment.confirmed'' ''p1''
          (messageOptions p1 (Some [(''priority'', JNum 5), (''persistent'', JBool False)]))]
   \<and> calls (snd (sendToQueue demo_env ''webhook.notification'' p1
                 (Some [(''priority'', JNum 5), (''persistent'', JBool False)]) open_pool))
     = [ChanSendToQueue 1 ''webhook.notification'' ''p1''
          (messageOptions p1 (Some [(''priority'', JNum 5), (''persistent'', JBool False)]))]
   \<and> map_of (messageOptions p1 (Some [(''priority'', JNum 5), (''persistent'', JBool False)]))
        ''messageId'' = Some (JStr ''p1'')
   \<and> map_of (messageOptions p1 (Some [(''priority'', JNum 5), (''persistent'', JBool False)]))
        ''persistent'' = Some (JBool False)
   \<and> map_of (messageOptions p1 None) ''persistent'' = Some (JBool True)"
proof -
  let ?opts = "Some [(''priority'', JNum 5), (''persistent'', JBool False)]"
  have g: "fst (getChannel demo_env ''publisher'' open_pool) = Inr 1"
          "calls (snd (getChannel demo_env ''publisher'' open_pool)) = []"
    by (simp_all add: open_pool_publisher) (simp add: open_pool_def)
  have j: "JSON_stringify demo_env p1 = Inr ''p1''" by (simp add: demo_env_def p1_def)
  have i: "id p1 = ''p1''" by (simp add: p1_def)
  have a: "''messageId'' \<notin> fst ` set [(''priority'', JNum 5), (''persistent'', JBool False)]"
    by simp
  have d: "distinct (map fst [(''priority'', JNum 5), (''persistent'', JBool False)])"
          "(''persistent'', JBool False) \<in> set [(''priority'', JNum 5), (''persistent'', JBool False)]"
    by simp_all
  note T = publish_message_options[of demo_env open_pool p1 "''payment.events''"
             "''payment.confirmed''" ?opts "''webhook.notification''"]
  have w1: "calls (snd (publish demo_env ''payment.events'' ''payment.confirmed'' p1 ?opts open_pool))
     = [ChanPublish 1 ''payment.events'' ''payment.confirmed'' ''p1'' (messageOptions p1 ?opts)]
   \<and> calls (snd (sendToQueue demo_env ''webhook.notification'' p1 ?opts open_pool))
     = [ChanSendToQueue 1 ''webhook.notification'' ''p1'' (messageOptions p1 ?opts)]"
    using T g j by simp
  have w2: "map_of (messageOptions p1 ?opts) ''messageId'' = Some (JStr ''p1'')"
    using T a i by auto
  have w3: "map_of (messageOptions p1 ?opts) ''persistent'' = Some (JBool False)"
    using T d by blast
  have w4: "map_of (messageOptions p1 None) ''persistent'' = Some (JBool True)"
    using publish_message_options[of demo_env open_pool p1 "''payment.events''"
             "''payment.confirmed''" None "''webhook.notification''"] by simp
  from w1 w2 w3 w4 show ?thesis by simp
qed

text \<open>
  Against the wording of C6 (for every options argument the message is handed over
  persistent and with \<open>messageId = envelope.id\<close>): with options
  \<open>{persistent: false, messageId: 'other'}\<close> the write carries the caller's values.
\<close>

theorem publish_options_override_counterexample:
  "calls (snd (publish demo_env ''payment.events'' ''payment.confirmed'' p1
                 (Some [(''persistent'', JBool False), (''messageId'', JStr ''other'')]) open_pool))
     = [ChanPublish 1 ''payment.events'' ''payment.confirmed'' ''p1''
          [(''persistent'', JBool False), (''messageId'', JStr ''other''),
           (''timestamp'', JNum 1700000000000), (''type'', JStr ''payment.confirmed'')]]
   \<and> calls (snd (sendToQueue demo_env ''webhook.notification'' p1
                 (Some [(''persistent'', JBool False), (''messageId'', JStr ''other'')]) open_pool))
     = [ChanSendToQueue 1 ''webhook.notification'' ''p1''
          [(''persistent'', JBool False), (''messageId'', JStr ''other''),
           (''timestamp'', JNum 1700000000000), (''type'', JStr ''payment.confirmed'')]]"
  by (simp add: publish_def sendToQueue_def getChannel_def open_pool_def demo_env_def p1_def
        messageOptions_def spread_def log_def Let_def)

subsection \<open>Topology declaration\<close>










subsection \<open>The RPC call\<close>

lemma rpc_callback_other:
  "properties_correlationId m \<noteq> Some corrId \<Longrightarrow> rpc_callback E ch corrId (Some m) rc = rc"
  by (simp add: rpc_callback_def)

lemma rpc_callback_null: "rpc_callback E ch corrId None rc = rc"
  by (simp add: rpc_callback_def)

lemma rpc_callback_match:
  "properties_correlationId m = Some corrId \<Longrightarrow> promise rc = Pending \<Longrightarrow>
     promise (rpc_callback E ch corrId (Some m) rc)
       = (case JSON_parse E (content m) of
            Inl e \<Rightarrow> Rejected e
          | Inr response \<Rightarrow> Resolved response)"
  by (simp add: rpc_callback_def resolve_def reject_def split: sum.splits)

lemma rpc_callback_match_calls:
  "properties_correlationId m = Some corrId \<Longrightarrow>
     calls (pool (rpc_callback E ch corrId (Some m) rc))
       = (case JSON_parse E (content m) of
            Inl e \<Rightarrow> calls (pool rc)
          | Inr response \<Rightarrow> calls (pool rc) @ [Ack ch m])"
  by (simp add: rpc_callback_def log_def split: sum.splits)

text \<open>
  What rpc leaves behind: a pending promise comes with the timer armed and the consumer
  registered under the request's id; a failed set-up leaves neither.
\<close>

lemma rpc_initial:
  "(promise (rpc E queue request timeoutMs st) = Pending \<longrightarrow>
      timer (rpc E queue request timeoutMs st) = Some timeoutMs
      \<and> (\<exists>ch. consumer (rpc E queue request timeoutMs st) = Some (ch, id request)))
   \<and> (consumer (rpc E queue request timeoutMs st) = None
      \<or> (\<exists>ch. consumer (rpc E queue request timeoutMs st) = Some (ch, id request)))"
  by (cases "getChannel E ''rpc'' st")
     (auto simp: rpc_def rpc_failed_def Let_def split: sum.splits)

lemma rpc_step_consumer: "consumer (rpc_step E ev rc) = consumer rc"
  by (simp add: rpc_step_def rpc_callback_def rpc_timeout_def
        split: event.splits option.splits sum.splits prod.splits)

lemma rpc_step_deliver_timer: "timer (rpc_step E (Deliver msg) rc) = timer rc"
  by (simp add: rpc_step_def rpc_callback_def split: option.splits sum.splits prod.splits)

lemma rpc_step_settled: "promise rc \<noteq> Pending \<Longrightarrow> promise (rpc_step E ev rc) = promise rc"
  by (cases "promise rc")
     (simp_all add: rpc_step_def rpc_callback_def rpc_timeout_def resolve_def reject_def
        split: event.splits option.splits sum.splits prod.splits)

lemma rpc_step_pending:
  "promise (rpc_step E ev rc) = Pending \<Longrightarrow>
     promise rc = Pending \<and> timer (rpc_step E ev rc) = timer rc"
  by (cases "promise rc")
     (auto simp: rpc_step_def rpc_callback_def rpc_timeout_def resolve_def reject_def
        split: event.splits option.splits sum.splits prod.splits if_splits)

lemma rpc_run_Nil: "rpc_run E [] rc = rc"
  by (simp add: rpc_run_def)

lemma rpc_run_snoc: "rpc_run E (evs @ [ev]) rc = rpc_step E ev (rpc_run E evs rc)"
  by (simp add: rpc_run_def)

lemma rpc_run_append: "rpc_run E (evs @ later) rc = rpc_run E later (rpc_run E evs rc)"
  by (simp add: rpc_run_def)

lemma rpc_run_consumer: "consumer (rpc_run E evs rc) = consumer rc"
proof (induction evs rule: rev_induct)
  case Nil
  then show ?case by (simp add: rpc_run_Nil)
next
  case (snoc ev evs)
  then show ?case by (simp add: rpc_run_snoc rpc_step_consumer)
qed

lemma rpc_run_settled: "promise rc \<noteq> Pending \<Longrightarrow> promise (rpc_run E evs rc) = promise rc"
proof (induction evs rule: rev_induct)
  case Nil
  then show ?case by (simp add: rpc_run_Nil)
next
  case (snoc ev evs)
  then show ?case by (simp add: rpc_run_snoc rpc_step_settled)
qed

lemma rpc_run_pending:
  "promise (rpc_run E evs rc) = Pending \<Longrightarrow>
     promise rc = Pending \<and> timer (rpc_run E evs rc) = timer rc"
proof (induction evs rule: rev_induct)
  case Nil
  then show ?case by (simp add: rpc_run_Nil)
next
  case (snoc ev evs)
  from snoc.prems have p: "promise (rpc_step E ev (rpc_run E evs rc)) = Pending"
    by (simp add: rpc_run_snoc)
  from rpc_step_pending[OF p] snoc.IH show ?case by (simp add: rpc_run_snoc)
qed

lemma rpc_run_no_reply:
  "list_all (no_reply_for corrId) evs \<Longrightarrow>
   consumer rc = None \<or> (\<exists>ch. consumer rc = Some (ch, corrId)) \<Longrightarrow>
   rpc_run E evs rc = rc"
proof (induction evs rule: rev_induct)
  case Nil
  then show ?case by (simp add: rpc_run_Nil)
next
  case (snoc ev evs)
  then have IH: "rpc_run E evs rc = rc" and ev: "no_reply_for corrId ev" by simp_all
  from ev snoc.prems(2) have "rpc_step E ev rc = rc"
    by (auto simp: no_reply_for_def rpc_step_def rpc_callback_def
          split: event.splits option.splits)
  with IH show ?case by (simp add: rpc_run_snoc)
qed

lemma rpc_timer_rejects:
  "promise rc = Pending \<Longrightarrow> timer rc = Some t \<Longrightarrow>
     promise (rpc_step E TimerFires rc) = Rejected RPCTimeout"
  by (simp add: rpc_step_def rpc_timeout_def reject_def)

lemma rpc0_fields:
  "promise rpc0 = Pending" "timer rpc0 = Some 50" "consumer rpc0 = Some (1, ''p1'')"
  "calls (pool rpc0) =
     [AssertQueue 1 [] [(''exclusive'', JBool True), (''autoDelete'', JBool True)],
      ChanConsume 1 ''amq.gen-1'' (Some [(''noAck'', JBool False)]),
      ChanSendToQueue 1 ''compliance.check'' ''p1''
        [(''persistent'', JBool True), (''messageId'', JStr ''p1''),
         (''timestamp'', JNum 1700000000000), (''type'', JStr ''payment.confirmed''),
         (''correlationId'', JStr ''p1''), (''replyTo'', JStr ''amq.gen-1'')]]"
  by (simp_all add: rpc0_def rpc_def sendToQueue_def getChannel_def open_pool_def demo_env_def
        p1_def messageOptions_def spread_def log_def Let_def)

text \<open>
  Claim C4, amended. In every state an rpc call for \<open>request\<close> can reach, a delivery on
  the reply queue whose correlation id differs from \<open>request.id\<close>, and a null delivery,
  change nothing: the call is not settled and the delivery is not acknowledged, it is just
  ignored. Only a delivery whose correlation id equals \<open>request.id\<close> settles a pending
  call: it resolves it with the parsed body, or rejects it when the body does not parse.
\<close>

theorem rpc_reply_matching:
  "(\<forall>m. properties_correlationId m \<noteq> Some (id request) \<longrightarrow>
        rpc_step E (Deliver (Some m)) (rpc_run E evs (rpc E queue request timeoutMs st))
          = rpc_run E evs (rpc E queue request timeoutMs st))
   \<and> rpc_step E (Deliver None) (rpc_run E evs (rpc E queue request timeoutMs st))
          = rpc_run E evs (rpc E queue request timeoutMs st)
   \<and> (\<forall>m. properties_correlationId m = Some (id request)
           \<and> promise (rpc_run E evs (rpc E queue request timeoutMs st)) = Pending \<longrightarrow>
        promise (rpc_step E (Deliver (Some m)) (rpc_run E evs (rpc E queue request timeoutMs st)))
          = (case JSON_parse E (content m) of
               Inl e \<Rightarrow> Rejected e
             | Inr response \<Rightarrow> Resolved response))"
  (is "?A \<and> ?B \<and> ?C")
proof -
  let ?init = "rpc E queue request timeoutMs st"
  let ?now = "rpc_run E evs ?init"
  have c: "consumer ?now = consumer ?init" by (rule rpc_run_consumer)
  have c0: "consumer ?init = None \<or> (\<exists>ch. consumer ?init = Some (ch, id request))"
    using rpc_initial[of E queue request timeoutMs st] by blast
  have A: ?A using c c0 by (auto simp: rpc_step_def rpc_callback_other)
  have B: ?B using c c0 by (auto simp: rpc_step_def rpc_callback_null)
  have C: ?C
  proof (intro allI impI)
    fix m :: Delivery
    assume h: "properties_correlationId m = Some (id request) \<and> promise ?now = Pending"
    then have "promise ?init = Pending" using rpc_run_pending[of E evs ?init] by blast
    then obtain ch where "consumer ?init = Some (ch, id request)"
      using rpc_initial[of E queue request timeoutMs st] by blast
    with c have "rpc_step E (Deliver (Some m)) ?now = rpc_callback E ch (id request) (Some m) ?now"
      by (simp add: rpc_step_def)
    with h show "promise (rpc_step E (Deliver (Some m)) ?now)
          = (case JSON_parse E (content m) of
               Inl e \<Rightarrow> Rejected e
             | Inr response \<Rightarrow> Resolved response)"
      by (simp add: rpc_callback_match)
  qed
  from A B C show ?thesis by blast
qed

text \<open>
  On the demo call for \<open>p1\<close>: a reply for \<open>p0\<close> and a null delivery leave the call as
  it is, the reply for \<open>p1\<close> resolves it.
\<close>

theorem rpc_reply_matching_witness:
  "rpc_step demo_env (Deliver (Some stale_reply)) rpc0 = rpc0
   \<and> rpc_step demo_env (Deliver None) rpc0 = rpc0
   \<and> promise (rpc_step demo_env (Deliver (Some reply_p1)) rpc0) = Resolved (JObj [])"
proof -
  have s: "properties_correlationId stale_reply \<noteq> Some (id p1)"
    by (simp add: stale_reply_def p1_def)
  have r: "properties_correlationId reply_p1 = Some (id p1)"
    by (simp add: reply_p1_def p1_def)
  have p: "JSON_parse demo_env (content reply_p1) = Inr (JObj [])"
    by (simp add: reply_p1_def demo_env_def)
  have run: "rpc_run demo_env [] (rpc demo_env ''compliance.check'' p1 50 open_pool) = rpc0"
    by (simp add: rpc_run_Nil rpc0_def)
  from rpc_reply_matching[of p1 demo_env "[]" "''compliance.check''" 50 open_pool]
  show ?thesis using s r p rpc0_fields(1) by (simp add: run)
qed

text \<open>
  Against the wording of C4 (every other delivery is acknowledged and discarded): the
  reply for \<open>p0\<close> reaches the consumer of the call for \<open>p1\<close>; the call's state after it
  is the state before it, and no ack (or nack) has been issued.
\<close>

theorem rpc_stale_reply_counterexample:
  "properties_correlationId stale_reply \<noteq> Some (id p1)
   \<and> consumer rpc0 = Some (1, id p1)
   \<and> rpc_step demo_env (Deliver (Some stale_reply)) rpc0 = rpc0
   \<and> filter is_settlement (calls (pool (rpc_step demo_env (Deliver (Some stale_reply)) rpc0))) = []"
  by (simp add: rpc_step_def rpc_callback_def rpc0_fields stale_reply_def p1_def)

text \<open>The call in time: the clock, and the three ways a run can go.\<close>

lemma rpc_clock_settled: "promise rc \<noteq> Pending \<Longrightarrow> promise (rpc_clock E t rc) = promise rc"
  by (simp add: rpc_clock_def rpc_step_settled split: option.splits)

lemma rpc_clock_consumer: "consumer (rpc_clock E t rc) = consumer rc"
  by (simp add: rpc_clock_def rpc_step_consumer split: option.splits)

lemma rpc_clock_due:
  "promise rc = Pending \<Longrightarrow> timer rc = Some d \<Longrightarrow> d \<le> t \<Longrightarrow>
     promise (rpc_clock E t rc) = Rejected RPCTimeout"
  by (simp add: rpc_clock_def rpc_timer_rejects)

lemma rpc_clock_early: "timer rc = Some d \<Longrightarrow> t < d \<Longrightarrow> rpc_clock E t rc = rc"
  by (simp add: rpc_clock_def)

lemma rpc_deliver_unrelated:
  "unrelated corrId (t, msg) \<Longrightarrow>
   consumer rc = None \<or> (\<exists>ch. consumer rc = Some (ch, corrId)) \<Longrightarrow>
   rpc_step E (Deliver msg) rc = rc"
  by (auto simp: unrelated_def no_reply_for_def rpc_step_def rpc_callback_def
        split: option.splits)

lemma rpc_until_settled:
  "promise rc \<noteq> Pending \<Longrightarrow> promise (rpc_until E arrivals now rc) = promise rc"
proof (induction arrivals arbitrary: rc)
  case Nil
  then show ?case by (simp add: rpc_clock_settled)
next
  case (Cons a arrivals)
  obtain t msg where a: "a = (t, msg)" by (cases a)
  let ?next = "rpc_step E (Deliver msg) (rpc_clock E t rc)"
  have "promise ?next = promise rc"
    using Cons.prems by (simp add: rpc_step_settled rpc_clock_settled)
  with Cons.prems Cons.IH[of ?next] show ?case
    by (simp add: a rpc_clock_settled)
qed

text \<open>
  The timer wins: with no reply for the call before the deadline, the call is rejected
  from the deadline on.
\<close>

lemma rpc_until_timeout:
  assumes "list_all (no_reply_before corrId d) arrivals" and "d \<le> now"
    and "consumer rc = None \<or> (\<exists>ch. consumer rc = Some (ch, corrId))"
    and "(promise rc = Pending \<and> timer rc = Some d) \<or> promise rc = Rejected RPCTimeout"
  shows "promise (rpc_until E arrivals now rc) = Rejected RPCTimeout"
  using assms
proof (induction arrivals arbitrary: rc)
  case Nil
  then show ?case by (auto simp: rpc_clock_due rpc_clock_settled)
next
  case (Cons a arrivals)
  obtain t msg where a: "a = (t, msg)" by (cases a)
  have now: "promise (rpc_clock E now rc) = Rejected RPCTimeout"
    using Cons.prems(2,4) by (auto simp: rpc_clock_due rpc_clock_settled)
  let ?next = "rpc_step E (Deliver msg) (rpc_clock E t rc)"
  have c: "consumer ?next = None \<or> (\<exists>ch. consumer ?next = Some (ch, corrId))"
    using Cons.prems(3) by (simp add: rpc_step_consumer rpc_clock_consumer)
  have inv: "(promise ?next = Pending \<and> timer ?next = Some d)
             \<or> promise ?next = Rejected RPCTimeout"
  proof (cases "promise rc = Pending \<and> timer rc = Some d \<and> t < d")
    case True
    then have same: "rpc_clock E t rc = rc" by (simp add: rpc_clock_early)
    from True Cons.prems(1) a have "unrelated corrId (t, msg)"
      by (simp add: no_reply_before_def)
    from rpc_deliver_unrelated[OF this Cons.prems(3)] same True show ?thesis by simp
  next
    case False
    with Cons.prems(4) have "promise (rpc_clock E t rc) = Rejected RPCTimeout"
      by (auto simp: rpc_clock_due rpc_clock_settled)
    then show ?thesis by (simp add: rpc_step_settled)
  qed
  have rest: "list_all (no_reply_before corrId d) arrivals" using Cons.prems(1) by simp
  from Cons.IH[OF rest Cons.prems(2) c inv] now show ?case by (simp add: a)
qed

text \<open>Before the deadline, arrivals that are no replies for the call leave it as it is.\<close>

lemma rpc_until_waiting:
  assumes "list_all (unrelated corrId) arrivals" and "now < d" and "timer rc = Some d"
    and "consumer rc = None \<or> (\<exists>ch. consumer rc = Some (ch, corrId))"
  shows "rpc_until E arrivals now rc = rc"
  using assms
proof (induction arrivals)
  case Nil
  then show ?case by (simp add: rpc_clock_early)
next
  case (Cons a arrivals)
  obtain t msg where a: "a = (t, msg)" by (cases a)
  have idle: "rpc_clock E now rc = rc" using Cons.prems by (simp add: rpc_clock_early)
  show ?case
  proof (cases "now < t")
    case True
    then show ?thesis by (simp add: a idle)
  next
    case False
    with Cons.prems(2) have "t < d" by simp
    then have same: "rpc_clock E t rc = rc" using Cons.prems(3) by (simp add: rpc_clock_early)
    from Cons.prems(1) a have "unrelated corrId (t, msg)" by simp
    from rpc_deliver_unrelated[OF this Cons.prems(4)] same
    have "rpc_step E (Deliver msg) (rpc_clock E t rc) = rc" by simp
    with False Cons show ?thesis by (simp add: a)
  qed
qed

text \<open>The reply wins: it arrives before the deadline, after arrivals that are no replies.\<close>

lemma rpc_until_reply:
  assumes "list_all (unrelated_by corrId t) early" and "t < d" and "t \<le> now"
    and "consumer rc = Some (ch, corrId)" and "promise rc = Pending" and "timer rc = Some d"
    and "properties_correlationId m = Some corrId" and "JSON_parse E (content m) = Inr response"
  shows "promise (rpc_until E (early @ (t, Some m) # later) now rc) = Resolved response"
  using assms
proof (induction early)
  case Nil
  have same: "rpc_clock E t rc = rc" using Nil.prems by (simp add: rpc_clock_early)
  have "promise (rpc_step E (Deliver (Some m)) rc) = Resolved response"
    using Nil.prems by (simp add: rpc_step_def rpc_callback_match)
  then have "promise (rpc_until E later now (rpc_step E (Deliver (Some m)) rc)) = Resolved response"
    by (simp add: rpc_until_settled)
  with Nil.prems(3) same show ?case by simp
next
  case (Cons a early)
  obtain t' msg where a: "a = (t', msg)" by (cases a)
  from Cons.prems(1) a have t': "t' \<le> t" and u: "unrelated corrId (t', msg)"
    by (simp_all add: unrelated_by_def)
  have same: "rpc_clock E t' rc = rc" using t' Cons.prems(2,6) by (simp add: rpc_clock_early)
  have c: "consumer rc = None \<or> (\<exists>ch. consumer rc = Some (ch, corrId))"
    using Cons.prems(4) by simp
  from rpc_deliver_unrelated[OF u c] same
  have step: "rpc_step E (Deliver msg) (rpc_clock E t' rc) = rc" by simp
  have "\<not> now < t'" using t' Cons.prems(3) by simp
  with step Cons show ?case by (simp add: a)
qed

text \<open>
  Claim C5, amended. For every rpc call whose set-up succeeded (the call is pending when
  the timer is armed): if no matching reply arrives before \<open>timeoutMs\<close> has elapsed,
  the call is rejected with the error \<open>RPC timeout\<close> from the time \<open>timeoutMs\<close> on,
  whatever arrives later, a matching reply included, and it is still pending at every
  time before \<open>timeoutMs\<close>; a matching reply whose body parses and which arrives before
  \<open>timeoutMs\<close>, after arrivals that are no replies to the call, resolves it with the
  parsed body, and neither the timer nor a later arrival changes that. So whichever of
  matching reply and deadline comes first is the only winner. Nothing is said about
  releasing the timer or the reply subscription.
\<close>

theorem rpc_race:
  "(promise (rpc E queue request timeoutMs st) = Pending
      \<and> list_all (no_reply_before (id request) timeoutMs) arrivals \<and> timeoutMs \<le> now \<longrightarrow>
      promise (rpc_until E arrivals now (rpc E queue request timeoutMs st))
        = Rejected RPCTimeout)
   \<and> (promise (rpc E queue request timeoutMs st) = Pending
      \<and> list_all (unrelated (id request)) arrivals \<and> now < timeoutMs \<longrightarrow>
      promise (rpc_until E arrivals now (rpc E queue request timeoutMs st)) = Pending)
   \<and> (\<forall>early t m later response.
        promise (rpc E queue request timeoutMs st) = Pending
        \<and> list_all (unrelated_by (id request) t) early \<and> t < timeoutMs \<and> t \<le> now
        \<and> properties_correlationId m = Some (id request)
        \<and> JSON_parse E (content m) = Inr response \<longrightarrow>
        promise (rpc_until E (early @ (t, Some m) # later) now (rpc E queue request timeoutMs st))
          = Resolved response)"
  (is "?A \<and> ?B \<and> ?C")
proof -
  let ?init = "rpc E queue request timeoutMs st"
  have c0: "consumer ?init = None \<or> (\<exists>ch. consumer ?init = Some (ch, id request))"
    using rpc_initial[of E queue request timeoutMs st] by blast
  have t0: "promise ?init = Pending \<Longrightarrow> timer ?init = Some timeoutMs"
    using rpc_initial[of E queue request timeoutMs st] by blast
  have A: ?A
  proof
    assume h: "promise ?init = Pending
      \<and> list_all (no_reply_before (id request) timeoutMs) arrivals \<and> timeoutMs \<le> now"
    then have "(promise ?init = Pending \<and> timer ?init = Some timeoutMs)
               \<or> promise ?init = Rejected RPCTimeout"
      using t0 by simp
    with h c0 show "promise (rpc_until E arrivals now ?init) = Rejected RPCTimeout"
      by (intro rpc_until_timeout[where corrId = "id request" and d = timeoutMs]) simp_all
  qed
  have B: ?B
  proof
    assume h: "promise ?init = Pending
      \<and> list_all (unrelated (id request)) arrivals \<and> now < timeoutMs"
    then have "rpc_until E arrivals now ?init = ?init"
      using t0 c0
      by (intro rpc_until_waiting[where corrId = "id request" and d = timeoutMs]) simp_all
    with h show "promise (rpc_until E arrivals now ?init) = Pending" by simp
  qed
  have C: ?C
  proof (intro allI impI)
    fix early t later response and m :: Delivery
    assume h: "promise ?init = Pending
        \<and> list_all (unrelated_by (id request) t) early \<and> t < timeoutMs \<and> t \<le> now
        \<and> properties_correlationId m = Some (id request)
        \<and> JSON_parse E (content m) = Inr response"
    then obtain ch where ch: "consumer ?init = Some (ch, id request)"
      using rpc_initial[of E queue request timeoutMs st] by blast
    from h t0 have t: "timer ?init = Some timeoutMs" by simp
    show "promise (rpc_until E (early @ (t, Some m) # later) now ?init) = Resolved response"
      by (rule rpc_until_reply[where corrId = "id request" and d = timeoutMs and ch = ch])
         (use h ch t in simp_all)
  qed
  from A B C show ?thesis by blast
qed

text \<open>
  The scenario of the specification: a call with a 50 ms timeout that sees only a stale
  reply at 10 ms is rejected at 50 ms, and the matching reply at 100 ms changes nothing;
  at 49 ms the call is still pending; a matching reply at 20 ms resolves it for good.
\<close>

theorem rpc_race_witness:
  "promise (rpc_until demo_env [(10, Some stale_reply), (100, Some reply_p1)] 200 rpc0)
     = Rejected RPCTimeout
   \<and> promise (rpc_until demo_env [(10, Some stale_reply), (100, Some reply_p1)] 50 rpc0)
     = Rejected RPCTimeout
   \<and> promise (rpc_until demo_env [(10, Some stale_reply)] 49 rpc0) = Pending
   \<and> promise (rpc_until demo_env [(10, Some stale_reply), (20, Some reply_p1), (100, None)]
                200 rpc0)
     = Resolved (JObj [])"
proof -
  have i: "id p1 = ''p1''" by (simp add: p1_def)
  have late: "list_all (no_reply_before (id p1) 50) [(10, Some stale_reply), (100, Some reply_p1)]"
    by (simp add: no_reply_before_def unrelated_def no_reply_for_def stale_reply_def i)
  have noise: "list_all (unrelated (id p1)) [(10, Some stale_reply)]"
    by (simp add: unrelated_def no_reply_for_def stale_reply_def i)
  have early: "list_all (unrelated_by (id p1) 20) [(10, Some stale_reply)]"
    by (simp add: unrelated_by_def unrelated_def no_reply_for_def stale_reply_def i)
  have r: "properties_correlationId reply_p1 = Some (id p1)"
    by (simp add: reply_p1_def i)
  have p: "JSON_parse demo_env (content reply_p1) = Inr (JObj [])"
    by (simp add: reply_p1_def demo_env_def)
  have pend: "promise (rpc demo_env ''compliance.check'' p1 50 open_pool) = Pending"
    using rpc0_fields(1) by (simp add: rpc0_def)
  have w1: "promise (rpc_until demo_env [(10, Some stale_reply), (100, Some reply_p1)] 200 rpc0)
     = Rejected RPCTimeout"
    using rpc_race[of demo_env "''compliance.check''" p1 50 open_pool
            "[(10, Some stale_reply), (100, Some reply_p1)]" 200] pend late
    by (simp add: rpc0_def)
  have w2: "promise (rpc_until demo_env [(10, Some stale_reply), (100, Some reply_p1)] 50 rpc0)
     = Rejected RPCTimeout"
    using rpc_race[of demo_env "''compliance.check''" p1 50 open_pool
            "[(10, Some stale_reply), (100, Some reply_p1)]" 50] pend late
    by (simp add: rpc0_def)
  have w3: "promise (rpc_until demo_env [(10, Some stale_reply)] 49 rpc0) = Pending"
    using rpc_race[of demo_env "''compliance.check''" p1 50 open_pool
            "[(10, Some stale_reply)]" 49] pend noise
    by (simp add: rpc0_def)
  have b: "(20::int) < 50" "(20::int) \<le> 200" by simp_all
  have w4: "promise (rpc_until demo_env
                ([(10, Some stale_reply)] @ (20, Some reply_p1) # [(100, None)]) 200
                (rpc demo_env ''compliance.check'' p1 50 open_pool))
     = Resolved (JObj [])"
    using rpc_race[of demo_env "''compliance.check''" p1 50 open_pool _ 200] pend early r p b
    by blast
  from w1 w2 w3 w4 show ?thesis by (simp add: rpc0_def)
qed

text \<open>
  Against the wording of C5. The loser's resources are not released: when the matching
  reply wins at 20 ms, the timer is still armed at 30 ms; when the timer wins, the
  consumer on the reply queue is still registered at 60 ms (no event unregisters it,
  \<open>rpc_run_consumer\<close>, and no delivery clears the timer, \<open>rpc_step_deliver_timer\<close>: the
  source calls neither \<open>clearTimeout\<close> nor \<open>channel.cancel\<close>). And a call whose set-up
  fails, here on a pool that was never connected, is rejected with the set-up's error,
  not with the timeout.
\<close>

theorem rpc_resources_counterexample:
  "promise (rpc_until demo_env [(20, Some reply_p1)] 30 rpc0) = Resolved (JObj [])
   \<and> timer (rpc_until demo_env [(20, Some reply_p1)] 30 rpc0) = Some 50
   \<and> promise (rpc_until demo_env [] 60 rpc0) = Rejected RPCTimeout
   \<and> consumer (rpc_until demo_env [] 60 rpc0) = Some (1, ''p1'')
   \<and> promise (rpc_until demo_env [] 60
                (rpc demo_env ''compliance.check'' p1 50 new_RabbitMQConnection))
       = Rejected NotConnected"
  by (simp add: rpc_clock_def rpc_step_def rpc_callback_def rpc_timeout_def rpc0_fields
        reply_p1_def demo_env_def resolve_def reject_def rpc_def rpc_failed_def getChannel_def
        new_RabbitMQConnection_def)

subsection \<open>The JSON round trip\<close>












end
